(* ===== verification/Prelude.thy ===== *)
theory Prelude
  imports Complex_Main
begin

text \<open>
  Shared vocabulary of the stopwatch development: the names of the model's basic
  types, the collections of rewrite rules that the component theories extend, and
  generic facts on lists that several components use (the lap list is reversed in
  place by the view, so iterated reversal and the last element of a list recur).
\<close>

section \<open>Types of the model\<close>

text \<open>
  A JavaScript \<open>number\<close> that only ever holds integers (milliseconds, lap times,
  differences) is an \<open>int\<close>. Interval handles returned by \<open>setInterval\<close> are
  positive integers in the browser, modelled as \<open>nat\<close>; \<open>number | null\<close> is
  \<open>nat option\<close>.
\<close>

type_synonym ms = int
type_synonym interval_id = nat

section \<open>Rule collections\<close>

named_theorems js_eval \<open>evaluation rules for the JavaScript built-ins on concrete values\<close>
named_theorems sw_defs \<open>unfolding rules of the stopwatch handlers\<close>

section \<open>Generic list facts\<close>

lemma funpow_rev [simp]: "(rev ^^ n) xs = (if even n then xs else rev xs)"
  by (induction n) auto

lemma last_index_append [simp]: "(xs @ [x]) ! (length (xs @ [x]) - 1) = x"
  by simp

lemma last_index_conv_last: "xs \<noteq> [] \<Longrightarrow> xs ! (length xs - 1) = last xs"
  by (simp add: last_conv_nth)

lemma rev_singleton_eq: "length xs \<le> 1 \<Longrightarrow> rev xs = xs"
  by (cases xs) auto

section \<open>JavaScript truthiness of an optional handle\<close>

text \<open>
  \<open>if (intervalId)\<close> tests a \<open>number | null\<close>: \<open>null\<close> and \<open>0\<close> are falsy.
\<close>

definition truthy_id :: "interval_id option \<Rightarrow> bool" where
  "truthy_id x = (case x of None \<Rightarrow> False | Some i \<Rightarrow> i \<noteq> 0)"

lemma truthy_id_simps [simp]:
  "truthy_id None = False"
  "truthy_id (Some i) = (i \<noteq> 0)"
  by (simp_all add: truthy_id_def)

end
