(* ===== verification/JsPrim.thy ===== *)
theory JsPrim
  imports Prelude
begin

text \<open>
  The JavaScript built-ins that \<open>formatTime\<close> and the lap list in
  \<open>src/src/Watch.tsx\<close> call: \<open>%\<close> on numbers, \<open>/\<close> followed by
  \<open>Math.floor\<close>, \<open>Number.prototype.toString\<close> on integral values,
  \<open>String.prototype.padStart\<close> and \<open>String.prototype.substring\<close>. They follow
  ECMAScript: \<open>%\<close> truncates towards zero (the result has the sign of the
  dividend), unlike Isabelle's \<open>mod\<close>; \<open>padStart\<close> pads on the left whatever
  the string holds, a minus sign included. Quotients are computed exactly, as
  rationals: every value the source divides is an integer number of milliseconds far
  below \<open>2^53\<close>, where the double quotient and \<open>Math.floor\<close> of it agree with
  the exact ones for the divisors used (1000, 60000, 3600000).
  The theory also holds a decimal reader, the inverse of \<open>toString\<close> used for
  the round-trip theorems.
\<close>

section \<open>Number.prototype.toString on integers\<close>

definition digit_char :: "nat \<Rightarrow> char" where
  "digit_char d = ''0123456789'' ! d"

lemma digit_char_simps [simp, js_eval]:
  "digit_char 0 = CHR ''0''" "digit_char 1 = CHR ''1''" "digit_char 2 = CHR ''2''"
  "digit_char 3 = CHR ''3''" "digit_char 4 = CHR ''4''" "digit_char 5 = CHR ''5''"
  "digit_char 6 = CHR ''6''" "digit_char 7 = CHR ''7''" "digit_char 8 = CHR ''8''"
  "digit_char 9 = CHR ''9''" "digit_char (Suc 0) = CHR ''1''"
  by (simp_all add: digit_char_def)

fun digits :: "nat \<Rightarrow> string" where
  "digits n = (if n < 10 then [digit_char n] else digits (n div 10) @ [digit_char (n mod 10)])"

declare digits.simps [simp del]

lemmas digits_eval [js_eval] = digits.simps

definition js_toString :: "int \<Rightarrow> string" where
  "js_toString i = (if i < 0 then CHR ''-'' # digits (nat (- i)) else digits (nat i))"

section \<open>String.prototype.padStart and substring\<close>

text \<open>\<open>s.padStart(n, c)\<close> for a one-character filler \<open>c\<close>.\<close>

definition padStart :: "string \<Rightarrow> nat \<Rightarrow> char \<Rightarrow> string" where
  "padStart s n c = replicate (n - length s) c @ s"

text \<open>\<open>s.substring(a, b)\<close> for \<open>a \<le> b\<close>; indices past the end are clamped.\<close>

definition substring :: "string \<Rightarrow> nat \<Rightarrow> nat \<Rightarrow> string" where
  "substring s a b = take (b - a) (drop a s)"

section \<open>Arithmetic: \<open>%\<close>, \<open>/\<close> and Math.floor\<close>

text \<open>\<open>%\<close> on two integral numbers: the remainder of truncating division.\<close>

definition js_imod :: "int \<Rightarrow> int \<Rightarrow> int" where
  "js_imod a b = (if 0 \<le> a then a mod \<bar>b\<bar> else - ((- a) mod \<bar>b\<bar>))"

text \<open>Truncation towards zero, and \<open>%\<close> on arbitrary (here rational) numbers.\<close>

definition js_trunc :: "rat \<Rightarrow> int" where
  "js_trunc x = (if 0 \<le> x then \<lfloor>x\<rfloor> else \<lceil>x\<rceil>)"

definition js_fmod :: "rat \<Rightarrow> rat \<Rightarrow> rat" where
  "js_fmod x y = x - y * of_int (js_trunc (x / y))"

text \<open>Integer division truncating towards zero, the integer shadow of \<open>js_trunc\<close>.\<close>

definition tdiv :: "int \<Rightarrow> int \<Rightarrow> int" where
  "tdiv a b = (if 0 \<le> a then a div b else - ((- a) div b))"

section \<open>Decimal reader\<close>

text \<open>
  The inverse of \<open>digits\<close>, used to state that the printed fields can be read
  back: a non-empty string of decimal digits denotes the number it spells.
\<close>

definition is_digit :: "char \<Rightarrow> bool" where
  "is_digit c = (c \<in> set ''0123456789'')"

definition digit_val :: "char \<Rightarrow> nat" where
  "digit_val c = of_char c - 48"

definition parse_nat :: "string \<Rightarrow> nat option" where
  "parse_nat s =
     (if s \<noteq> [] \<and> list_all is_digit s
      then Some (foldl (\<lambda>acc c. 10 * acc + digit_val c) 0 s) else None)"

section \<open>Facts on the arithmetic built-ins\<close>

lemma js_imod_nonneg [simp]: "0 \<le> a \<Longrightarrow> js_imod a b = a mod \<bar>b\<bar>"
  by (simp add: js_imod_def)

lemma tdiv_nonneg [simp]: "0 \<le> a \<Longrightarrow> tdiv a b = a div b"
  by (simp add: tdiv_def)

lemma js_trunc_of_int_div:
  assumes "0 < b"
  shows "js_trunc (of_int a / of_int b) = tdiv a b"
proof (cases "0 \<le> a")
  case True
  with assms show ?thesis by (simp add: js_trunc_def tdiv_def floor_divide_of_int_eq)
next
  case False
  have "\<lceil>of_int a / of_int b :: rat\<rceil> = - \<lfloor>- (of_int a / of_int b) :: rat\<rfloor>"
    by (simp add: ceiling_def)
  also have "- (of_int a / of_int b) = (of_int (- a) / of_int b :: rat)"
    by simp
  finally have c: "\<lceil>of_int a / of_int b :: rat\<rceil> = - ((- a) div b)"
    by (simp only: floor_divide_of_int_eq)
  have "(of_int a / of_int b :: rat) < 0"
    using False assms by (simp add: divide_neg_pos)
  with c False show ?thesis
    by (simp add: js_trunc_def tdiv_def)
qed

text \<open>\<open>Math.floor((t / d) % m)\<close> for integral \<open>t\<close> and positive \<open>d\<close>, \<open>m\<close>.\<close>

lemma floor_js_fmod_of_int:
  assumes "0 < d" "0 < m"
  shows "\<lfloor>js_fmod (of_int t / of_int d) (of_int m)\<rfloor> = t div d - m * tdiv t (d * m)"
proof -
  have "of_int t / of_int d / of_int m = (of_int t / of_int (d * m) :: rat)" by simp
  moreover have "0 < d * m" using assms by simp
  ultimately have "js_trunc (of_int t / of_int d / of_int m) = tdiv t (d * m)"
    by (simp only: js_trunc_of_int_div)
  then have "js_fmod (of_int t / of_int d) (of_int m) =
             of_int t / of_int d - of_int (m * tdiv t (d * m))"
    by (simp add: js_fmod_def)
  then show ?thesis by (simp only: floor_diff_of_int floor_divide_of_int_eq)
qed

lemma floor_js_fmod_nonneg:
  assumes "0 \<le> t" "0 < d" "0 < m"
  shows "\<lfloor>js_fmod (of_int t / of_int d) (of_int m)\<rfloor> = (t div d) mod m"
proof -
  have "t div (d * m) = t div d div m"
    using assms by (simp add: zdiv_zmult2_eq)
  with assms show ?thesis
    by (simp add: floor_js_fmod_of_int minus_div_mult_eq_mod [symmetric])
qed

section \<open>Facts on the decimal printer\<close>

lemma digits_small [simp]: "n < 10 \<Longrightarrow> digits n = [digit_char n]"
  by (simp add: digits.simps)

lemma digits_large: "\<not> n < 10 \<Longrightarrow> digits n = digits (n div 10) @ [digit_char (n mod 10)]"
  by (simp add: digits.simps)

lemma digits_not_Nil [simp]: "digits n \<noteq> []"
  by (cases "n < 10") (simp_all add: digits_large)

lemma less_10_cases:
  "d < (10::nat) \<Longrightarrow> d = 0 \<or> d = 1 \<or> d = 2 \<or> d = 3 \<or> d = 4 \<or> d = 5 \<or> d = 6 \<or> d = 7 \<or> d = 8 \<or> d = 9"
  by (simp add: less_Suc_eq numeral_eq_Suc)

lemma length_digits_le: "n < 10 ^ k \<Longrightarrow> 0 < k \<Longrightarrow> length (digits n) \<le> k"
proof (induction n arbitrary: k rule: digits.induct)
  case (1 n)
  show ?case
  proof (cases "n < 10")
    case True
    with "1.prems" show ?thesis by simp
  next
    case False
    obtain k' where k: "k = Suc k'"
      using "1.prems" by (cases k) auto
    with False "1.prems" have "0 < k'"
      by (cases k') auto
    from "1.prems" k have "n div 10 < 10 ^ k'"
      by (simp add: less_mult_imp_div_less mult.commute)
    with "1.IH" [OF False] \<open>0 < k'\<close> k False show ?thesis by (simp add: digits_large)
  qed
qed

lemma length_digits_ge: "10 ^ k \<le> n \<Longrightarrow> k < length (digits n)"
proof (induction n arbitrary: k rule: digits.induct)
  case (1 n)
  show ?case
  proof (cases k)
    case 0
    then show ?thesis by simp
  next
    case (Suc k')
    with "1.prems" have "10 * 10 ^ k' \<le> n" by simp
    moreover have "10 \<le> 10 * (10::nat) ^ k'" by simp
    ultimately have big: "\<not> n < 10" by linarith
    from \<open>10 * 10 ^ k' \<le> n\<close> have le: "10 ^ k' \<le> n div 10"
      by (simp add: less_eq_div_iff_mult_less_eq mult.commute)
    from "1.IH" [OF big le] big Suc show ?thesis by (simp add: digits_large)
  qed
qed

lemma is_digit_digit_char:
  assumes "d < 10" shows "is_digit (digit_char d)"
  using less_10_cases [OF assms] by (elim disjE) (simp_all add: digit_char_def is_digit_def)

lemma list_all_is_digit_digits: "list_all is_digit (digits n)"
proof (induction n rule: digits.induct)
  case (1 n)
  then show ?case by (cases "n < 10") (simp_all add: digits_large is_digit_digit_char)
qed

lemma digit_val_digit_char [simp]:
  assumes "d < 10" shows "digit_val (digit_char d) = d"
  using less_10_cases [OF assms] by (elim disjE) (simp_all add: digit_val_def digit_char_def)

lemma foldl_digits:
  "foldl (\<lambda>acc c. 10 * acc + digit_val c) a (digits n) = a * 10 ^ length (digits n) + n"
proof (induction n arbitrary: a rule: digits.induct)
  case (1 n)
  show ?case
  proof (cases "n < 10")
    case True
    then show ?thesis by simp
  next
    case False
    then show ?thesis
      using "1.IH" [OF False] by (simp add: digits_large algebra_simps)
  qed
qed

lemma parse_nat_padded_digits [simp]:
  "parse_nat (replicate k CHR ''0'' @ digits n) = Some n"
proof -
  have z: "foldl (\<lambda>acc c. 10 * acc + digit_val c) 0 (replicate k CHR ''0'') = 0"
    by (induction k) (simp_all add: digit_val_def)
  have "is_digit CHR ''0''" by (simp add: is_digit_def)
  then have "list_all is_digit (replicate k CHR ''0'')"
    by (simp add: list_all_iff)
  then have "list_all is_digit (replicate k CHR ''0'' @ digits n)"
    using list_all_is_digit_digits [of n] by simp
  then show ?thesis
    by (simp add: parse_nat_def foldl_digits z)
qed

section \<open>Evaluation rules for numeral divisors\<close>

lemma floor_of_int_div_numeral [js_eval]:
  "\<lfloor>of_int t / numeral k :: rat\<rfloor> = t div numeral k"
  using floor_divide_of_int_eq [of t "numeral k", where 'a = rat] by simp

lemma floor_js_fmod_numeral [js_eval]:
  "\<lfloor>js_fmod (of_int t / numeral d) (numeral m)\<rfloor> =
   t div numeral d - numeral m * tdiv t (numeral d * numeral m)"
  using floor_js_fmod_of_int [of "numeral d" "numeral m" t] by simp

lemma floor_js_fmod_nonneg_numeral:
  "0 \<le> t \<Longrightarrow> \<lfloor>js_fmod (of_int t / numeral d) (numeral m)\<rfloor> = (t div numeral d) mod numeral m"
  using floor_js_fmod_nonneg [of t "numeral d" "numeral m"] by simp

lemma js_toString_nonneg [simp]: "0 \<le> i \<Longrightarrow> js_toString i = digits (nat i)"
  by (simp add: js_toString_def)

lemmas [js_eval] = js_toString_def padStart_def substring_def js_imod_def tdiv_def

end
