(* ===== verification/FormatTime.thy ===== *)
theory FormatTime
  imports JsPrim
begin

text \<open>
  \<open>formatTime\<close> of \<open>src/src/Watch.tsx\<close> (lines 113--129): milliseconds to
  \<open>HH:MM:SS.ff\<close>. The definition follows the source expression by expression;
  the theory proves that on non-negative input it agrees with a plain integer
  formatter (hours, minutes mod 60, seconds mod 60, hundredths truncated), that the
  result has 11 characters below 100 hours, that the printed time can be read back
  up to the truncated milliseconds, and what it prints for the negative values the
  lap list passes to it.
\<close>

section \<open>The source definition\<close>

definition formatTime :: "ms \<Rightarrow> string" where
  "formatTime time =
     (let milliseconds = substring (padStart (js_toString (js_imod time 1000)) 3 CHR ''0'') 0 2;
          seconds = padStart (js_toString \<lfloor>js_fmod (of_int time / 1000) 60\<rfloor>) 2 CHR ''0'';
          minutes = padStart (js_toString \<lfloor>js_fmod (of_int time / (1000 * 60)) 60\<rfloor>) 2 CHR ''0'';
          hours = padStart (js_toString \<lfloor>of_int time / (1000 * 60 * 60) :: rat\<rfloor>) 2 CHR ''0''
      in hours @ '':'' @ minutes @ '':'' @ seconds @ ''.'' @ milliseconds)"

section \<open>An integer reference formatter\<close>

definition pad2 :: "nat \<Rightarrow> string" where
  "pad2 n = padStart (digits n) 2 CHR ''0''"

definition format_ref :: "nat \<Rightarrow> string" where
  "format_ref n =
     pad2 (n div 3600000) @ '':'' @ pad2 (n div 60000 mod 60) @ '':'' @
     pad2 (n div 1000 mod 60) @ ''.'' @ pad2 (n mod 1000 div 10)"

text \<open>A reader for the printed format, the inverse used by the round trip.\<close>

definition parse_time :: "string \<Rightarrow> ms option" where
  "parse_time s =
     (let k = length s - 9; r = drop k s in
      if 0 < k \<and> length r = 9 \<and> r ! 0 = CHR '':'' \<and> r ! 3 = CHR '':'' \<and> r ! 6 = CHR ''.''
      then (case (parse_nat (take k s), parse_nat (substring r 1 3),
                  parse_nat (substring r 4 6), parse_nat (substring r 7 9)) of
              (Some h, Some m, Some sec, Some f) \<Rightarrow>
                Some (int (h * 3600000 + m * 60000 + sec * 1000 + f * 10))
            | _ \<Rightarrow> None)
      else None)"

section \<open>Two-digit fields\<close>

lemma length_digits_lt100: "n < 100 \<Longrightarrow> length (digits n) \<le> 2"
  using length_digits_le [of n 2] by simp

lemma length_pad2 [simp]: "n < 100 \<Longrightarrow> length (pad2 n) = 2"
  using length_digits_lt100 [of n] by (simp add: pad2_def padStart_def)

lemma length_pad2_max: "length (pad2 n) = max 2 (length (digits n))"
  by (simp add: pad2_def padStart_def)

lemma length_pad2_ge: "2 \<le> length (pad2 n)"
  by (simp add: pad2_def padStart_def)

lemma pad2_pair:
  assumes "n < 100" shows "\<exists>a b. pad2 n = [a, b]"
proof -
  have "length (pad2 n) = Suc (Suc 0)" using assms by simp
  then show ?thesis by (auto simp: length_Suc_conv)
qed

lemma mod60_lt100 [simp]: "(x::nat) mod 60 < 100"
  by (rule order_less_trans [of _ 60]) simp_all

lemma hundredths_lt100 [simp]: "(x::nat) mod 1000 div 10 < 100"
  by (simp add: div_less_iff_less_mult)

lemma parse_nat_pad2 [simp]: "parse_nat (pad2 n) = Some n"
  by (simp add: pad2_def padStart_def)

text \<open>
  The milliseconds field: three digits, zero-padded, of which the first two are
  kept, are the hundredths written on two digits (truncation, not rounding).
\<close>

lemma substring_pad3_digits:
  assumes "r < 1000"
  shows "substring (padStart (digits r) 3 CHR ''0'') 0 2 = pad2 (r div 10)"
proof (cases "r < 10")
  case True
  then show ?thesis by (simp add: substring_def padStart_def pad2_def numeral_2_eq_2)
next
  case False
  note big = False
  show ?thesis
  proof (cases "r < 100")
    case True
    then have "r div 10 < 10" by simp
    with big show ?thesis
      by (simp add: digits_large substring_def padStart_def pad2_def)
  next
    case False
    with assms have "10 \<le> r div 10" "r div 10 < 100" by auto
    then have l: "length (digits (r div 10)) = 2"
      using length_digits_lt100 [of "r div 10"] length_digits_ge [of 1 "r div 10"] by simp
    with big show ?thesis
      by (simp add: digits_large substring_def padStart_def pad2_def)
  qed
qed

section \<open>Agreement with the integer formatter\<close>

lemma nat_div_numeral: "0 \<le> t \<Longrightarrow> nat (t div numeral d) = nat t div numeral d"
  by (simp add: nat_div_distrib)

lemma nat_mod_numeral: "0 \<le> t \<Longrightarrow> nat (t mod numeral d) = nat t mod numeral d"
  by (simp add: nat_mod_distrib)

lemma formatTime_format_ref:
  assumes "0 \<le> t"
  shows "formatTime t = format_ref (nat t)"
proof -
  have ms: "substring (padStart (js_toString (js_imod t 1000)) 3 CHR ''0'') 0 2 =
            pad2 (nat t mod 1000 div 10)"
    using assms substring_pad3_digits [of "nat t mod 1000"] by (simp add: nat_mod_numeral)
  have sec: "js_toString \<lfloor>js_fmod (of_int t / 1000) 60\<rfloor> = digits (nat t div 1000 mod 60)"
    using assms by (simp add: floor_js_fmod_nonneg_numeral nat_mod_distrib nat_div_numeral)
  have mins: "js_toString \<lfloor>js_fmod (of_int t / (1000 * 60)) 60\<rfloor> = digits (nat t div 60000 mod 60)"
    using assms by (simp add: floor_js_fmod_nonneg_numeral nat_mod_distrib nat_div_numeral)
  have hrs: "js_toString \<lfloor>of_int t / (1000 * 60 * 60) :: rat\<rfloor> = digits (nat t div 3600000)"
    using assms by (simp add: floor_of_int_div_numeral nat_div_numeral)
  show ?thesis
    unfolding formatTime_def Let_def ms sec mins hrs
    by (simp add: format_ref_def pad2_def)
qed

section \<open>Negative input\<close>

lemma parse_nat_minus [simp]: "parse_nat (CHR ''-'' # s) = None"
  by (simp add: parse_nat_def is_digit_def)

lemma parse_time_minus: "parse_time (CHR ''-'' # s) = None"
proof (cases "length (CHR ''-'' # s) - 9")
  case 0
  then show ?thesis by (simp add: parse_time_def Let_def)
next
  case (Suc j)
  then have "take (length (CHR ''-'' # s) - 9) (CHR ''-'' # s) = CHR ''-'' # take j s" by simp
  then show ?thesis by (simp add: parse_time_def Let_def split: option.splits)
qed

lemma formatTime_negative_head:
  assumes "t < 0"
  shows "\<exists>rest. formatTime t = CHR ''-'' # rest"
proof -
  have "\<lfloor>of_int t / (1000 * 60 * 60) :: rat\<rfloor> = t div 3600000"
    by (simp add: floor_of_int_div_numeral)
  moreover have "t div 3600000 < 0" using assms by simp
  ultimately have "js_toString \<lfloor>of_int t / (1000 * 60 * 60) :: rat\<rfloor> =
      CHR ''-'' # digits (nat (- (t div 3600000)))"
    by (simp add: js_toString_def)
  then have "padStart (js_toString \<lfloor>of_int t / (1000 * 60 * 60) :: rat\<rfloor>) 2 CHR ''0'' =
      CHR ''-'' # digits (nat (- (t div 3600000)))"
    by (simp add: padStart_def Suc_le_eq)
  then show ?thesis by (simp add: formatTime_def Let_def)
qed

section \<open>Round trip\<close>

lemma recompose_linear:
  fixes a b h m sec n r f z :: nat
  assumes "a = h * 60 + m" "b = a * 60 + sec" "n = b * 1000 + r" "r = f * 10 + z"
  shows "h * 3600000 + m * 60000 + sec * 1000 + f * 10 = n - z"
  using assms by linarith

lemma hms_recompose:
  "n div 3600000 * 3600000 + n div 60000 mod 60 * 60000 + n div 1000 mod 60 * 1000 +
   n mod 1000 div 10 * 10 = n - n mod (10::nat)"
proof -
  have h: "n div 60000 div 60 = n div 3600000"
    using div_mult2_eq [of n 60000 60] by simp
  have m: "n div 1000 div 60 = n div 60000"
    using div_mult2_eq [of n 1000 60] by simp
  have a: "n div 60000 = n div 3600000 * 60 + n div 60000 mod 60"
    using div_mult_mod_eq [of "n div 60000" 60] unfolding h by (simp only:)
  have b: "n div 1000 = n div 60000 * 60 + n div 1000 mod 60"
    using div_mult_mod_eq [of "n div 1000" 60] unfolding m by (simp only:)
  have c: "n = n div 1000 * 1000 + n mod 1000"
    using div_mult_mod_eq [of n 1000] by (simp only:)
  have "n mod 1000 mod 10 = n mod 10"
    by (rule mod_mod_cancel) simp
  then have d: "n mod 1000 = n mod 1000 div 10 * 10 + n mod 10"
    using div_mult_mod_eq [of "n mod 1000" 10] by (simp only:)
  from recompose_linear [OF a b c d] show ?thesis .
qed

lemma parse_time_format_ref: "parse_time (format_ref n) = Some (int (n - n mod 10))"
proof -
  obtain m1 m2 where m: "pad2 (n div 60000 mod 60) = [m1, m2]"
    using pad2_pair [of "n div 60000 mod 60"] by auto
  obtain s1 s2 where s: "pad2 (n div 1000 mod 60) = [s1, s2]"
    using pad2_pair [of "n div 1000 mod 60"] by auto
  obtain f1 f2 where f: "pad2 (n mod 1000 div 10) = [f1, f2]"
    using pad2_pair [of "n mod 1000 div 10"] by auto
  let ?h = "pad2 (n div 3600000)"
  have eq: "format_ref n = ?h @ [CHR '':'', m1, m2, CHR '':'', s1, s2, CHR ''.'', f1, f2]"
    by (simp add: format_ref_def m s f)
  have k: "0 < length ?h" using length_pad2_ge [of "n div 3600000"] by linarith
  have "parse_nat [m1, m2] = Some (n div 60000 mod 60)" using parse_nat_pad2 m by metis
  moreover have "parse_nat [s1, s2] = Some (n div 1000 mod 60)" using parse_nat_pad2 s by metis
  moreover have "parse_nat [f1, f2] = Some (n mod 1000 div 10)" using parse_nat_pad2 f by metis
  ultimately show ?thesis
    using k by (simp add: eq parse_time_def substring_def hms_recompose)
qed

lemma parse_time_formatTime_nonneg:
  assumes "0 \<le> t"
  shows "parse_time (formatTime t) = Some (t - t mod 10)"
proof -
  have "int (nat t - nat t mod 10) = t - t mod 10"
    using assms by (simp add: of_nat_diff zmod_int)
  with assms show ?thesis by (simp add: formatTime_format_ref parse_time_format_ref)
qed

lemma length_format_ref: "n < 360000000 \<Longrightarrow> length (format_ref n) = 11"
  by (simp add: format_ref_def less_mult_imp_div_less)

section \<open>Properties of formatTime\<close>

text \<open>
  C5. On a non-negative number of milliseconds, \<open>formatTime\<close> prints the hours,
  the minutes modulo 60, the seconds modulo 60 and the hundredths (milliseconds
  truncated, not rounded), each on at least two zero-padded digits: the
  floating-point expression of the source computes exactly these integer fields.
\<close>

theorem formatTime_fields:
  "0 \<le> t \<Longrightarrow>
   formatTime t =
     pad2 (nat t div 3600000) @ '':'' @ pad2 (nat t div 60000 mod 60) @ '':'' @
     pad2 (nat t div 1000 mod 60) @ ''.'' @ pad2 (nat t mod 1000 div 10)"
  by (simp add: formatTime_format_ref format_ref_def)

theorem formatTime_fields_witness:
  "(0::ms) \<le> 3725990 \<and> formatTime 3725990 = pad2 1 @ '':'' @ pad2 2 @ '':'' @ pad2 5 @ ''.'' @ pad2 99"
  using formatTime_fields [of 3725990] by simp

text \<open>
  C6. Round trip: reading back the printed time of a non-negative number of
  milliseconds gives that number truncated to hundredths.
\<close>

theorem formatTime_roundtrip:
  "0 \<le> t \<Longrightarrow> parse_time (formatTime t) = Some (t - t mod 10)"
  by (rule parse_time_formatTime_nonneg)

theorem formatTime_roundtrip_witness:
  "(0::ms) \<le> 3661015 \<and> parse_time (formatTime 3661015) = Some 3661010"
  using formatTime_roundtrip [of 3661015] by simp

text \<open>
  C12. Below 100 hours the printed time has exactly 11 characters
  (\<open>HH:MM:SS.ff\<close>).
\<close>

theorem formatTime_length:
  "0 \<le> t \<Longrightarrow> t < 360000000 \<Longrightarrow> length (formatTime t) = 11"
  by (simp add: formatTime_format_ref length_format_ref nat_less_iff)

theorem formatTime_length_witness:
  "(0::ms) \<le> 359999990 \<and> (359999990::ms) < 360000000 \<and> length (formatTime 359999990) = 11"
  using formatTime_length [of 359999990] by simp

text \<open>
  C17. Two non-negative times that are multiples of the tick granularity 10 print
  differently when they differ.
\<close>

theorem formatTime_injective_ticks:
  "0 \<le> a \<Longrightarrow> 0 \<le> b \<Longrightarrow> 10 dvd a \<Longrightarrow> 10 dvd b \<Longrightarrow> formatTime a = formatTime b \<Longrightarrow> a = b"
  by (metis parse_time_formatTime_nonneg option.inject dvd_imp_mod_0 diff_zero)

theorem formatTime_injective_ticks_witness:
  "(0::ms) \<le> 10 \<and> (0::ms) \<le> 10 \<and> (10::ms) dvd 10 \<and> formatTime 10 = formatTime 10 \<and> (10::ms) = 10"
  using formatTime_injective_ticks [of 10 10] by simp

text \<open>
  C24. The hours field is not bounded: for any non-negative time the printed string
  has 9 characters after the hours, and the hours take at least two characters and
  as many as their decimal digits (from 100 hours on the format widens).
\<close>

theorem formatTime_length_hours:
  "0 \<le> t \<Longrightarrow> length (formatTime t) = 9 + max 2 (length (digits (nat t div 3600000)))"
  by (simp add: formatTime_format_ref format_ref_def length_pad2_max [of "nat t div 3600000"])

theorem formatTime_length_hours_witness:
  "(0::ms) \<le> 360000000 \<and> length (formatTime 360000000) = 12"
proof -
  have "length (digits (nat 360000000 div 3600000)) = 3"
    by (simp add: digits_large)
  with formatTime_length_hours [of 360000000] show ?thesis by simp
qed

text \<open>
  C26. Error behaviour on the values the lap list passes in: a negative number of
  milliseconds never prints as a readable time. The hours field starts with a minus
  sign, which \<open>padStart\<close> does not move, so the reader rejects every such string.
\<close>

theorem formatTime_negative_unreadable: "t < 0 \<Longrightarrow> parse_time (formatTime t) = None"
  using formatTime_negative_head [of t] parse_time_minus by auto

theorem formatTime_negative_unreadable_witness:
  "(-500::ms) < 0 \<and> parse_time (formatTime (-500)) = None"
  using formatTime_negative_unreadable [of "-500"] by simp

end
