(* ===== verification/Stopwatch.thy ===== *)
theory Stopwatch
  imports Prelude
begin

text \<open>
  The state and the event handlers of the \<open>Stopwatch\<close> component of
  \<open>src/src/Watch.tsx\<close>: the four \<open>useState\<close> hooks (lines 9--12) as the record
  \<open>stopwatch\<close>, the handlers \<open>handleStart\<close> \<dots> \<open>handleLap\<close> (lines 29--55) as
  functions on it, the interval callback of the effect (line 17) as \<open>tick\<close>, and
  the \<open>disabled\<close> attributes and \<open>onClick\<close> wiring of the five buttons
  (lines 62--92) as \<open>disabled\<close> and \<open>handler\<close>. A click on a disabled button
  does nothing. \<open>handler_fields\<close> states what each handler does to each field. The machine \<open>sw_step\<close> is the contract of spec section 4.1: a click,
  or a tick of the running timer; the theory \<open>Runtime\<close> shows which parts of it
  the React component implements.
\<close>

section \<open>State\<close>

text \<open>\<open>interface Lap { time: number; difference: number }\<close> (lines 3--6).\<close>

record lap =
  lap_time :: ms
  difference :: ms

record stopwatch =
  time :: ms
  running :: bool
  intervalId :: "interval_id option"
  laps :: "lap list"

definition sw_init :: stopwatch where
  "sw_init = \<lparr>time = 0, running = False, intervalId = None, laps = []\<rparr>"

section \<open>Handlers\<close>

definition handleStart :: "stopwatch \<Rightarrow> stopwatch" where
  "handleStart s = s\<lparr>running := True, laps := []\<rparr>"

definition handlePause :: "stopwatch \<Rightarrow> stopwatch" where
  "handlePause s = s\<lparr>running := False\<rparr>"

definition handleStop :: "stopwatch \<Rightarrow> stopwatch" where
  "handleStop s = s\<lparr>running := False, time := 0\<rparr>"

definition handleReset :: "stopwatch \<Rightarrow> stopwatch" where
  "handleReset s = s\<lparr>time := 0, laps := []\<rparr>"

text \<open>
  \<open>lastLapTime\<close> is the \<open>time\<close> field of the last element of the stored array,
  \<open>lapTime = time - lastLapTime\<close>, and the new lap is appended to the array
  (\<open>setLaps(prevLaps => [...prevLaps, ...])\<close>).
\<close>

definition handleLap :: "stopwatch \<Rightarrow> stopwatch" where
  "handleLap s =
     (let lastLapTime = (if 0 < length (laps s) then lap_time (laps s ! (length (laps s) - 1)) else 0);
          lapTime = time s - lastLapTime
      in s\<lparr>laps := laps s @ [\<lparr>lap_time = lapTime, difference = lapTime - lastLapTime\<rparr>]\<rparr>)"

text \<open>The interval callback: \<open>setTime((prevTime) => prevTime + 10)\<close>.\<close>

definition tick :: "stopwatch \<Rightarrow> stopwatch" where
  "tick s = s\<lparr>time := time s + 10\<rparr>"

lemmas [sw_defs] = handleStart_def handlePause_def handleStop_def handleReset_def
  handleLap_def tick_def

section \<open>Buttons\<close>

datatype button = Start | Pause | Stop | Reset | Lap

fun disabled :: "stopwatch \<Rightarrow> button \<Rightarrow> bool" where
  "disabled s Start = running s"
| "disabled s Pause = (\<not> running s)"
| "disabled s Stop = (\<not> running s)"
| "disabled s Reset = False"
| "disabled s Lap = (\<not> running s)"

fun handler :: "button \<Rightarrow> stopwatch \<Rightarrow> stopwatch" where
  "handler Start = handleStart"
| "handler Pause = handlePause"
| "handler Stop = handleStop"
| "handler Reset = handleReset"
| "handler Lap = handleLap"

definition click :: "stopwatch \<Rightarrow> button \<Rightarrow> stopwatch" where
  "click s b = (if disabled s b then s else handler b s)"

section \<open>The contract as a machine\<close>

datatype event = Click button | Tick

fun sw_step :: "stopwatch \<Rightarrow> event \<Rightarrow> stopwatch" where
  "sw_step s (Click b) = click s b"
| "sw_step s Tick = (if running s then tick s else s)"

definition sw_run :: "stopwatch \<Rightarrow> event list \<Rightarrow> stopwatch" where
  "sw_run s es = foldl sw_step s es"

definition sw_inv :: "stopwatch \<Rightarrow> bool" where
  "sw_inv s \<longleftrightarrow> 0 \<le> time s \<and> 10 dvd time s"

definition last_lap_time :: "lap list \<Rightarrow> ms" where
  "last_lap_time ls = (if ls = [] then 0 else lap_time (last ls))"

section \<open>What each handler changes\<close>

text \<open>
  The frame of the click handlers, field by field: which setters each handler
  calls and with what value. The proofs about single steps and about the runtime
  use these instead of unfolding the handlers button by button.
\<close>

lemma handler_time: "time (handler b s) = (if b = Stop \<or> b = Reset then 0 else time s)"
  by (cases b) (simp_all add: sw_defs Let_def)

lemma handler_running:
  "running (handler b s) = (if b = Start then True else if b = Pause \<or> b = Stop then False else running s)"
  by (cases b) (simp_all add: sw_defs Let_def)

lemma handler_intervalId [simp]: "intervalId (handler b s) = intervalId s"
  by (cases b) (simp_all add: sw_defs Let_def)

lemma length_handler_laps:
  "length (laps (handler b s)) =
     (if b = Start \<or> b = Reset then 0 else if b = Lap then Suc (length (laps s)) else length (laps s))"
  by (cases b) (simp_all add: sw_defs Let_def)

lemmas handler_fields = handler_time handler_running handler_intervalId length_handler_laps

section \<open>Single steps\<close>

lemma sw_step_inv: "sw_inv s \<Longrightarrow> sw_inv (sw_step s e)"
proof (cases e)
  case (Click b)
  then show "sw_inv s \<Longrightarrow> sw_inv (sw_step s e)"
    by (auto simp: sw_inv_def click_def handler_time)
next
  case Tick
  then show "sw_inv s \<Longrightarrow> sw_inv (sw_step s e)"
    by (auto simp: sw_inv_def tick_def)
qed

lemma sw_inv_init [simp]: "sw_inv sw_init"
  by (simp add: sw_inv_def sw_init_def)

lemma sw_run_simps [simp]:
  "sw_run s [] = s"
  "sw_run s (e # es) = sw_run (sw_step s e) es"
  "sw_run s (es @ fs) = sw_run (sw_run s es) fs"
  by (simp_all add: sw_run_def)

lemma sw_run_preserves_inv: "sw_inv s \<Longrightarrow> sw_inv (sw_run s es)"
  by (induction es arbitrary: s) (simp_all add: sw_step_inv)

lemma handleLap_laps:
  "laps (handleLap s) = laps s @ [\<lparr>lap_time = time s - last_lap_time (laps s),
                                  difference = time s - last_lap_time (laps s) - last_lap_time (laps s)\<rparr>]"
  by (simp add: handleLap_def last_lap_time_def Let_def last_conv_nth)

text \<open>
  C9. A lap is only ever appended by a click on the Lap button while the stopwatch
  runs: no other event, and no click while stopped or paused, adds a lap.
\<close>

theorem laps_grow_only_by_running_lap:
  "length (laps s) < length (laps (sw_step s e)) \<Longrightarrow> running s \<and> e = Click Lap"
proof (cases e)
  case (Click b)
  then show "length (laps s) < length (laps (sw_step s e)) \<Longrightarrow> running s \<and> e = Click Lap"
    by (auto simp: click_def length_handler_laps split: if_splits)
next
  case Tick
  then show "length (laps s) < length (laps (sw_step s e)) \<Longrightarrow> running s \<and> e = Click Lap"
    by (simp add: tick_def split: if_splits)
qed

lemma sw_run_ticks:
  "running s \<Longrightarrow> sw_run s (replicate n Tick) = s\<lparr>time := time s + 10 * int n\<rparr>"
  by (induction n arbitrary: s) (simp_all add: tick_def algebra_simps)

section \<open>Properties of the contract\<close>

text \<open>
  C4. In every run from the initial state the elapsed time is non-negative and a
  multiple of the tick granularity 10.
\<close>

theorem sw_time_inv: "0 \<le> time (sw_run sw_init es) \<and> 10 dvd time (sw_run sw_init es)"
  using sw_run_preserves_inv [OF sw_inv_init, of es] by (simp add: sw_inv_def)

theorem laps_grow_only_by_running_lap_witness:
  "length (laps (handleStart sw_init)) < length (laps (sw_step (handleStart sw_init) (Click Lap))) \<and>
   running (handleStart sw_init)"
proof -
  have h: "length (laps (handleStart sw_init)) < length (laps (sw_step (handleStart sw_init) (Click Lap)))"
    by (simp add: sw_init_def click_def sw_defs Let_def)
  from laps_grow_only_by_running_lap [OF h] h show ?thesis by simp
qed

text \<open>
  C8. While the stopwatch runs, n ticks advance the elapsed time by exactly 10 n and
  leave it running.
\<close>

theorem sw_ticks_advance:
  "running s \<Longrightarrow>
   time (sw_run s (replicate n Tick)) = time s + 10 * int n \<and> running (sw_run s (replicate n Tick))"
  by (simp add: sw_run_ticks)

theorem sw_ticks_advance_witness:
  "running (handleStart sw_init) \<and> time (sw_run (handleStart sw_init) (replicate 7 Tick)) = 70"
proof -
  have r: "running (handleStart sw_init)" by (simp add: handleStart_def)
  from sw_ticks_advance [OF r, of 7] r show ?thesis by (simp add: handleStart_def sw_init_def)
qed

text \<open>
  C13. Reset sets the elapsed time to 0 and clears the laps in every state, and
  leaves the running flag alone (it does not stop the timer).
\<close>

theorem reset_post:
  "time (sw_step s (Click Reset)) = 0 \<and> laps (sw_step s (Click Reset)) = [] \<and>
   running (sw_step s (Click Reset)) = running s"
  by (simp add: click_def handleReset_def)

text \<open>
  C14. Stop, while running, stops and sets the elapsed time to 0 but keeps the laps.
\<close>

theorem stop_post:
  "running s \<Longrightarrow>
   time (sw_step s (Click Stop)) = 0 \<and> \<not> running (sw_step s (Click Stop)) \<and>
   laps (sw_step s (Click Stop)) = laps s"
  by (simp add: click_def handleStop_def)

theorem stop_post_witness:
  "running (sw_run sw_init [Click Start, Tick, Click Lap]) \<and>
   laps (sw_step (sw_run sw_init [Click Start, Tick, Click Lap]) (Click Stop)) =
   [\<lparr>lap_time = 10, difference = 10\<rparr>]"
proof -
  have r: "running (sw_run sw_init [Click Start, Tick, Click Lap])"
    by (simp add: sw_init_def click_def sw_defs Let_def)
  have l: "laps (sw_run sw_init [Click Start, Tick, Click Lap]) = [\<lparr>lap_time = 10, difference = 10\<rparr>]"
    by (simp add: sw_init_def click_def sw_defs Let_def)
  from stop_post [OF r] r l show ?thesis by simp
qed

text \<open>
  C15. Start, from a stopped or paused state, sets running and clears the laps but
  keeps the elapsed time: resuming continues from the paused value.
\<close>

theorem start_post:
  "\<not> running s \<Longrightarrow> sw_step s (Click Start) = s\<lparr>running := True, laps := []\<rparr>"
  by (simp add: click_def handleStart_def)

theorem start_post_witness:
  "\<not> running (sw_run sw_init [Click Start, Tick, Click Pause]) \<and>
   time (sw_run sw_init [Click Start, Tick, Click Pause, Click Start]) = 10"
proof -
  have p: "\<not> running (sw_run sw_init [Click Start, Tick, Click Pause])"
    by (simp add: sw_init_def click_def sw_defs)
  have t: "time (sw_run sw_init [Click Start, Tick, Click Pause]) = 10"
    by (simp add: sw_init_def click_def sw_defs)
  from start_post [OF p] p t show ?thesis by simp
qed

end
