(* ===== verification/View.thy ===== *)
theory View
  imports FormatTime Stopwatch
begin

text \<open>
  The render function of the component (\<open>src/src/Watch.tsx\<close>, lines 57--110):
  the formatted elapsed time, the five buttons with their \<open>disabled\<close> flags, and
  the lap list. The lap list is rendered from \<open>laps.reverse()\<close>, which reverses
  the state array in place: rendering is not pure, it returns the view and the
  component state with the stored array reversed. The theory gives the rules for
  what one render shows (display, rows) and does to the state; the runtime theories
  use them for the view on screen.
\<close>

section \<open>Render\<close>

type_synonym row = "string \<times> string \<times> string"

record view =
  display :: string
  buttons :: "(button \<times> bool) list"
  rows :: "row list"

definition lap_row :: "nat \<Rightarrow> nat \<Rightarrow> lap \<Rightarrow> row" where
  "lap_row n index lap =
     (padStart (js_toString (int n - int index)) 2 CHR ''0'',
      ''+'' @ formatTime (lap_time lap), formatTime (difference lap))"

text \<open>
  \<open>{laps.length > 0 && (<ul> {laps.reverse().map((lap, index) => ...)} </ul>)}\<close>:
  the reversal happens only when the array is non-empty (the \<open>&&\<close> short-cuts).
\<close>

definition render :: "stopwatch \<Rightarrow> view \<times> stopwatch" where
  "render s =
     (if 0 < length (laps s)
      then (let arr = rev (laps s)
            in (\<lparr>display = formatTime (time s),
                 buttons = map (\<lambda>b. (b, disabled s b)) [Start, Pause, Stop, Reset, Lap],
                 rows = map (\<lambda>(index, lap). lap_row (length arr) index lap) (enumerate 0 arr)\<rparr>,
                s\<lparr>laps := arr\<rparr>))
      else (\<lparr>display = formatTime (time s),
             buttons = map (\<lambda>b. (b, disabled s b)) [Start, Pause, Stop, Reset, Lap],
             rows = []\<rparr>, s))"

section \<open>What a render shows and does\<close>

lemma render_state: "snd (render s) = s\<lparr>laps := rev (laps s)\<rparr>"
  by (simp add: render_def Let_def)

lemma render_rows: "rows (fst (render s)) = map (\<lambda>(index, lap). lap_row (length (laps s)) index lap) (enumerate 0 (rev (laps s)))"
  by (simp add: render_def Let_def)

lemma render_display: "display (fst (render s)) = formatTime (time s)"
  by (simp add: render_def Let_def)

lemma render_other_fields [simp]:
  "time (snd (render s)) = time s" "running (snd (render s)) = running s"
  "intervalId (snd (render s)) = intervalId s" "laps (snd (render s)) = rev (laps s)"
  by (simp_all add: render_state)

lemma length_render_rows [simp]: "length (rows (fst (render s))) = length (laps s)"
  by (simp add: render_rows)

end
