(* ===== verification/Runtime.thy ===== *)
theory Runtime
  imports View
begin

text \<open>
  The component inside React and the browser: the effect of lines 14--27 of
  \<open>src/src/Watch.tsx\<close> with its dependency list \<open>[running]\<close>, the cleanup
  closure it returns, the browser's interval timers, re-rendering after every state
  change (each render reverses the stored lap array, theory \<open>View\<close>, and its
  view is what the screen shows, \<open>shown\<close>), and unmounting. The cleanup closure captures the \<open>intervalId\<close> of the render in
  which the effect ran, which is the handle of the previous timer: the
  theory proves that while mounted at most one timer is active (exactly one, the
  stored handle, while running), and that unmounting while running leaves the timer
  active forever. Its relation to the contract machine is in \<open>Refinement\<close>.
\<close>

section \<open>State of the runtime\<close>

record runtime =
  cstate :: stopwatch
  timers :: "interval_id set"
  next_id :: interval_id
  effect_deps :: "bool option"
  cleanup :: "interval_id option"
  mounted :: bool
  shown :: view

text \<open>\<open>if (intervalId) clearInterval(intervalId)\<close> (lines 21 and 25).\<close>

definition clear_interval :: "interval_id option \<Rightarrow> interval_id set \<Rightarrow> interval_id set" where
  "clear_interval x ts = (case x of Some i \<Rightarrow> if truthy_id x then ts - {i} else ts | None \<Rightarrow> ts)"

definition rerender :: "runtime \<Rightarrow> runtime" where
  "rerender r = r\<lparr>cstate := snd (render (cstate r)), shown := fst (render (cstate r))\<rparr>"

text \<open>
  Running the effect: the cleanup of the previous run first, then the body with the
  values of the current render. The body either starts an interval and stores its
  handle (\<open>setIntervalId\<close>, which renders once more) or clears the stored handle.
  Its cleanup closure keeps the \<open>intervalId\<close> of the current render.
\<close>

definition run_effect :: "runtime \<Rightarrow> runtime" where
  "run_effect r =
     (let ts = clear_interval (cleanup r) (timers r); c = cstate r in
      if running c
      then rerender (r\<lparr>timers := insert (next_id r) ts, next_id := Suc (next_id r),
                       cstate := c\<lparr>intervalId := Some (next_id r)\<rparr>,
                       cleanup := intervalId c, effect_deps := Some True\<rparr>)
      else r\<lparr>timers := clear_interval (intervalId c) ts,
             cleanup := intervalId c, effect_deps := Some False\<rparr>)"

text \<open>A state change renders, and the effect runs when \<open>running\<close> changed.\<close>

definition commit :: "runtime \<Rightarrow> runtime" where
  "commit r = (let r1 = rerender r in
               if effect_deps r1 = Some (running (cstate r1)) then r1 else run_effect r1)"

definition rt_init :: runtime where
  "rt_init = commit \<lparr>cstate = sw_init, timers = {}, next_id = 1, effect_deps = None,
                      cleanup = None, mounted = True,
                      shown = \<lparr>display = [], buttons = [], rows = []\<rparr>\<rparr>"

datatype rt_event = UserClick button | Fire interval_id | Unmount

fun rt_step :: "runtime \<Rightarrow> rt_event \<Rightarrow> runtime" where
  "rt_step r (UserClick b) =
     (if mounted r \<and> \<not> disabled (cstate r) b then commit (r\<lparr>cstate := handler b (cstate r)\<rparr>) else r)"
| "rt_step r (Fire i) =
     (if i \<in> timers r \<and> mounted r then commit (r\<lparr>cstate := tick (cstate r)\<rparr>) else r)"
| "rt_step r Unmount =
     (if mounted r then r\<lparr>timers := clear_interval (cleanup r) (timers r), mounted := False\<rparr> else r)"

definition rt_run :: "runtime \<Rightarrow> rt_event list \<Rightarrow> runtime" where
  "rt_run r es = foldl rt_step r es"

inductive rt_reach :: "runtime \<Rightarrow> bool" where
  init: "rt_reach rt_init"
| step: "rt_reach r \<Longrightarrow> rt_reach (rt_step r e)"

text \<open>
  React's commit loop in general: run the effects whose dependencies changed, and
  again after the updates they make, until the dependencies are stable. Fuel bounds
  the number of rounds; \<open>None\<close> is a loop that did not settle within it.
\<close>

fun effect_loop :: "nat \<Rightarrow> runtime \<Rightarrow> runtime option" where
  "effect_loop 0 r = None"
| "effect_loop (Suc n) r =
     (if effect_deps r = Some (running (cstate r)) then Some r else effect_loop n (run_effect r))"

section \<open>The invariant\<close>

definition ids_bounded :: "runtime \<Rightarrow> bool" where
  "ids_bounded r \<longleftrightarrow> 0 < next_id r \<and> (\<forall>i\<in>timers r. i < next_id r)
     \<and> pred_option (\<lambda>i. 0 < i \<and> i < next_id r) (intervalId (cstate r))
     \<and> pred_option (\<lambda>j. j < next_id r) (cleanup r)"

text \<open>
  The timers agree with the last run of the effect, made with \<open>running = b\<close>:
  while \<open>b\<close> exactly the stored handle is active and the cleanup closure holds
  another (older) handle; otherwise no timer is active.
\<close>

definition timer_agrees :: "bool \<Rightarrow> runtime \<Rightarrow> bool" where
  "timer_agrees b r \<longleftrightarrow> effect_deps r = Some b \<and>
     (if b
      then (\<exists>i. intervalId (cstate r) = Some i \<and> timers r = {i} \<and> cleanup r \<noteq> Some i)
      else timers r = {})"

definition rt_inv :: "runtime \<Rightarrow> bool" where
  "rt_inv r \<longleftrightarrow> ids_bounded r \<and> (mounted r \<longrightarrow> timer_agrees (running (cstate r)) r)"

section \<open>Preservation of the invariant\<close>

lemma tick_intervalId [simp]: "intervalId (tick s) = intervalId s"
  by (simp add: tick_def)

lemma rerender_simps [simp]:
  "timers (rerender r) = timers r" "next_id (rerender r) = next_id r"
  "effect_deps (rerender r) = effect_deps r" "cleanup (rerender r) = cleanup r"
  "mounted (rerender r) = mounted r"
  "running (cstate (rerender r)) = running (cstate r)"
  "intervalId (cstate (rerender r)) = intervalId (cstate r)"
  "time (cstate (rerender r)) = time (cstate r)"
  "laps (cstate (rerender r)) = rev (laps (cstate r))"
  by (simp_all add: rerender_def)

lemma ids_bounded_rerender [simp]: "ids_bounded (rerender r) = ids_bounded r"
  by (simp add: ids_bounded_def)

lemma clear_interval_None [simp]: "clear_interval None ts = ts"
  by (simp add: clear_interval_def)

lemma clear_interval_empty [simp]: "clear_interval x {} = {}"
  by (simp add: clear_interval_def split: option.splits)

lemma clear_interval_subset: "clear_interval x ts \<subseteq> ts"
  by (auto simp: clear_interval_def split: option.splits)

lemma clear_interval_other: "x \<noteq> Some i \<Longrightarrow> clear_interval x {i} = {i}"
  by (auto simp: clear_interval_def split: option.splits)

lemma clear_interval_same: "0 < i \<Longrightarrow> clear_interval (Some i) ts = ts - {i}"
  by (simp add: clear_interval_def)

lemma commit_inv:
  assumes ib: "ids_bounded r" and ag: "timer_agrees b r" and m: "mounted r"
  shows "rt_inv (commit r) \<and> mounted (commit r)"
proof (cases "b = running (cstate r)")
  case True
  with ag have "commit r = rerender r" by (simp add: commit_def timer_agrees_def)
  with True ib ag m show ?thesis by (simp add: rt_inv_def timer_agrees_def)
next
  case False
  let ?r1 = "rerender r"
  have c: "commit r = run_effect ?r1"
    using False ag by (simp add: commit_def timer_agrees_def)
  show ?thesis
  proof (cases b)
    case True
    with False have nr: "\<not> running (cstate r)" by simp
    from True ag obtain i where i: "intervalId (cstate r) = Some i" "timers r = {i}" "cleanup r \<noteq> Some i"
      by (auto simp: timer_agrees_def)
    with ib have "0 < i" by (simp add: ids_bounded_def)
    with i nr ib m show ?thesis
      by (auto simp: c run_effect_def Let_def rt_inv_def timer_agrees_def ids_bounded_def
                     clear_interval_other clear_interval_same)
  next
    case False
    with \<open>b \<noteq> running (cstate r)\<close> have rn: "running (cstate r)" by simp
    from False ag have t: "timers r = {}" by (simp add: timer_agrees_def)
    have "clear_interval (cleanup r) {} = {}" using clear_interval_subset by blast
    with rn t ib m show ?thesis
      by (auto simp: c run_effect_def Let_def rt_inv_def timer_agrees_def ids_bounded_def
                     rerender_def elim: option.pred_mono_strong)
  qed
qed

lemma rt_inv_init: "rt_inv rt_init"
  by (simp add: rt_init_def commit_def rerender_def render_def run_effect_def sw_init_def
                rt_inv_def ids_bounded_def timer_agrees_def)

lemma mounted_rt_step: "mounted (rt_step r e) \<Longrightarrow> mounted r"
  by (cases e) (auto simp: commit_def run_effect_def Let_def split: if_splits)

lemma rt_step_inv: "rt_inv r \<Longrightarrow> rt_inv (rt_step r e)"
proof (cases e)
  case (UserClick b)
  show "rt_inv r \<Longrightarrow> rt_inv (rt_step r e)"
  proof -
    assume inv: "rt_inv r"
    let ?r = "r\<lparr>cstate := handler b (cstate r)\<rparr>"
    have "mounted r \<Longrightarrow> ids_bounded ?r \<and> timer_agrees (running (cstate r)) ?r"
      using inv by (simp add: rt_inv_def ids_bounded_def timer_agrees_def)
    then show ?thesis using inv UserClick commit_inv [of ?r] by auto
  qed
next
  case (Fire i)
  show "rt_inv r \<Longrightarrow> rt_inv (rt_step r e)"
  proof -
    assume inv: "rt_inv r"
    let ?r = "r\<lparr>cstate := tick (cstate r)\<rparr>"
    have "mounted r \<Longrightarrow> ids_bounded ?r \<and> timer_agrees (running (cstate r)) ?r"
      using inv by (simp add: rt_inv_def ids_bounded_def timer_agrees_def)
    moreover have "running (tick s) = running s" for s by (simp add: tick_def)
    ultimately show ?thesis using inv Fire commit_inv [of ?r] by auto
  qed
next
  case Unmount
  show "rt_inv r \<Longrightarrow> rt_inv (rt_step r e)"
    using clear_interval_subset [of "cleanup r" "timers r"]
    by (auto simp: Unmount rt_inv_def ids_bounded_def)
qed

lemma rt_reach_inv: "rt_reach r \<Longrightarrow> rt_inv r"
  by (induction rule: rt_reach.induct) (simp_all add: rt_inv_init rt_step_inv)

lemma rt_reach_run: "rt_reach r \<Longrightarrow> rt_reach (rt_run r es)"
  by (induction es arbitrary: r) (simp_all add: rt_run_def rt_reach.step)

lemma rt_run_simps [simp]:
  "rt_run r [] = r" "rt_run r (e # es) = rt_run (rt_step r e) es"
  by (simp_all add: rt_run_def)

lemma timers_running:
  assumes "rt_reach r" "mounted r"
  shows "running (cstate r) \<longleftrightarrow> timers r \<noteq> {}"
  using rt_reach_inv [OF assms(1)] assms(2)
  by (auto simp: rt_inv_def timer_agrees_def split: if_splits)

section \<open>The commit loop\<close>

lemma run_effect_settles: "effect_deps (run_effect r) = Some (running (cstate (run_effect r)))"
  by (simp add: run_effect_def Let_def rerender_def)

lemma effect_loop_mono: "effect_loop n r = Some r' \<Longrightarrow> effect_loop (Suc n) r = Some r'"
proof (induction n arbitrary: r)
  case 0
  then show ?case by simp
next
  case (Suc n)
  show ?case
  proof (cases "effect_deps r = Some (running (cstate r))")
    case True
    with Suc.prems show ?thesis by simp
  next
    case False
    with Suc.prems have "effect_loop n (run_effect r) = Some r'" by simp
    then have "effect_loop (Suc n) (run_effect r) = Some r'" by (rule Suc.IH)
    with False show ?thesis by (simp only: effect_loop.simps(2) [of "Suc n" r] if_False)
  qed
qed

lemma mounted_commit [simp]: "mounted (commit r) = mounted r"
  by (simp add: commit_def run_effect_def Let_def rerender_def)

section \<open>What the screen shows\<close>

text \<open>
  The view on screen is the output of the last render, which was computed from the
  state before that render reversed the lap array: the current state with the lap
  array reversed back.
\<close>

lemma shown_rerender: "shown (rerender r) = fst (render ((cstate (rerender r))\<lparr>laps := rev (laps (cstate (rerender r)))\<rparr>))"
  by (simp add: rerender_def render_state)

lemma shown_commit: "shown (commit r) = fst (render ((cstate (commit r))\<lparr>laps := rev (laps (cstate (commit r)))\<rparr>))"
  by (simp add: commit_def run_effect_def Let_def shown_rerender del: rerender_simps)

lemma rt_reach_shown: "rt_reach r \<Longrightarrow> shown r = fst (render ((cstate r)\<lparr>laps := rev (laps (cstate r))\<rparr>))"
proof (induction rule: rt_reach.induct)
  case init
  show ?case by (simp add: rt_init_def shown_commit)
next
  case (step r e)
  then show ?case by (cases e) (simp_all add: shown_commit)
qed

lemma rt_reach_shown_rows:
  "rt_reach r \<Longrightarrow> rows (shown r) = map (\<lambda>(i, l). lap_row (length (laps (cstate r))) i l) (enumerate 0 (laps (cstate r)))"
  by (simp add: rt_reach_shown render_rows)

section \<open>Runs\<close>

lemma unmounted_step [simp]: "\<not> mounted r \<Longrightarrow> rt_step r e = r"
  by (cases e) simp_all

lemma rt_fire_render:
  assumes "rt_reach r" "mounted r" "i \<in> timers r"
  shows "rt_step r (Fire i) = rerender (r\<lparr>cstate := tick (cstate r)\<rparr>)"
proof -
  have "effect_deps r = Some (running (cstate r))"
    using rt_reach_inv [OF assms(1)] assms(2) by (simp add: rt_inv_def timer_agrees_def)
  with assms(2,3) show ?thesis by (simp add: commit_def tick_def)
qed

lemma rt_fire_run:
  assumes "rt_reach r" "mounted r" "i \<in> timers r"
  shows "time (cstate (rt_run r (replicate n (Fire i)))) = time (cstate r) + 10 * int n \<and>
         mounted (rt_run r (replicate n (Fire i))) \<and> i \<in> timers (rt_run r (replicate n (Fire i))) \<and>
         running (cstate (rt_run r (replicate n (Fire i)))) = running (cstate r)"
  using assms
proof (induction n arbitrary: r)
  case 0
  then show ?case by simp
next
  case (Suc n)
  let ?r = "rt_step r (Fire i)"
  have eq: "?r = rerender (r\<lparr>cstate := tick (cstate r)\<rparr>)"
    using Suc.prems by (rule rt_fire_render)
  have "rt_reach ?r" using Suc.prems(1) by (rule rt_reach.step)
  moreover have "mounted ?r" "i \<in> timers ?r" "time (cstate ?r) = time (cstate r) + 10"
      "running (cstate ?r) = running (cstate r)"
    using Suc.prems(2,3) by (simp_all only: eq) (simp_all add: tick_def)
  ultimately show ?case
    using Suc.IH [of ?r] by simp
qed

lemma rt_running_handle:
  assumes "rt_reach r" "mounted r" "running (cstate r)"
  obtains i where "intervalId (cstate r) = Some i" "timers r = {i}" "cleanup r \<noteq> Some i"
  using rt_reach_inv [OF assms(1)] assms(2,3) by (auto simp: rt_inv_def timer_agrees_def)

lemma rt_stopped_no_timer:
  assumes "rt_reach r" "mounted r" "\<not> running (cstate r)"
  shows "timers r = {}"
  using rt_reach_inv [OF assms(1)] assms(2,3) by (auto simp: rt_inv_def timer_agrees_def)

lemma rt_reach_start: "rt_reach (rt_step rt_init (UserClick Start))"
  by (rule rt_reach.step [OF rt_reach.init])

section \<open>Properties of the runtime\<close>

text \<open>
  C1. In every reachable mounted state at most one interval timer is active: while
  running exactly one, whose handle is the stored \<open>intervalId\<close>; while paused or
  stopped none, so no tick can follow Pause or Stop.
\<close>

theorem rt_single_timer:
  "rt_reach r \<Longrightarrow> mounted r \<Longrightarrow>
   (running (cstate r) \<longrightarrow> (\<exists>i. intervalId (cstate r) = Some i \<and> timers r = {i})) \<and>
   (\<not> running (cstate r) \<longrightarrow> timers r = {})"
  by (metis rt_running_handle rt_stopped_no_timer)

theorem rt_single_timer_witness:
  "rt_reach (rt_step rt_init (UserClick Start)) \<and> mounted (rt_step rt_init (UserClick Start)) \<and>
   timers (rt_step rt_init (UserClick Start)) = {1}"
proof -
  have m: "mounted (rt_step rt_init (UserClick Start))"
    and r: "running (cstate (rt_step rt_init (UserClick Start)))"
    and i: "intervalId (cstate (rt_step rt_init (UserClick Start))) = Some 1"
    by code_simp+
  from rt_single_timer [OF rt_reach_start m] r i m rt_reach_start show ?thesis by auto
qed

text \<open>
  C3. Unmounting the component while it runs leaves the running timer active: the
  cleanup closure holds the handle of the render in which \<open>running\<close> became true,
  which is never the handle of the timer that effect started.
\<close>

theorem rt_unmount_leaks_timer:
  "rt_reach r \<Longrightarrow> mounted r \<Longrightarrow> running (cstate r) \<Longrightarrow>
   \<exists>i. intervalId (cstate r) = Some i \<and> i \<in> timers (rt_step r Unmount) \<and> \<not> mounted (rt_step r Unmount)"
proof -
  assume a: "rt_reach r" "mounted r" "running (cstate r)"
  then obtain i where "intervalId (cstate r) = Some i" "timers r = {i}" "cleanup r \<noteq> Some i"
    by (rule rt_running_handle)
  with a(2) show ?thesis by (auto simp: clear_interval_other)
qed

theorem rt_unmount_leaks_timer_witness:
  "rt_reach (rt_step rt_init (UserClick Start)) \<and> mounted (rt_step rt_init (UserClick Start)) \<and>
   running (cstate (rt_step rt_init (UserClick Start))) \<and>
   1 \<in> timers (rt_step (rt_step rt_init (UserClick Start)) Unmount)"
proof -
  have m: "mounted (rt_step rt_init (UserClick Start))"
    and r: "running (cstate (rt_step rt_init (UserClick Start)))"
    and i: "intervalId (cstate (rt_step rt_init (UserClick Start))) = Some 1"
    by code_simp+
  from rt_unmount_leaks_timer [OF rt_reach_start m r] i m r rt_reach_start show ?thesis by auto
qed

text \<open>
  C7. While mounted and not running, no firing changes the component: there is no
  active timer.
\<close>

theorem rt_no_tick_when_stopped:
  "rt_reach r \<Longrightarrow> mounted r \<Longrightarrow> \<not> running (cstate r) \<Longrightarrow> rt_step r (Fire i) = r"
  by (simp add: rt_stopped_no_timer)

theorem rt_no_tick_when_stopped_witness:
  "rt_reach (rt_run rt_init [UserClick Start, UserClick Pause]) \<and>
   mounted (rt_run rt_init [UserClick Start, UserClick Pause]) \<and>
   \<not> running (cstate (rt_run rt_init [UserClick Start, UserClick Pause])) \<and>
   rt_step (rt_run rt_init [UserClick Start, UserClick Pause]) (Fire 1) =
   rt_run rt_init [UserClick Start, UserClick Pause]"
proof -
  have r: "rt_reach (rt_run rt_init [UserClick Start, UserClick Pause])"
    by (rule rt_reach_run [OF rt_reach.init])
  have m: "mounted (rt_run rt_init [UserClick Start, UserClick Pause])"
    and p: "\<not> running (cstate (rt_run rt_init [UserClick Start, UserClick Pause]))"
    by code_simp+
  from rt_no_tick_when_stopped [OF r m p] r m p show ?thesis by simp
qed

text \<open>
  C11. Every firing of the timer re-renders the component, and the render reverses
  the stored lap array: the order of the stored laps flips on every tick.
\<close>

theorem rt_fire_reverses_laps:
  "rt_reach r \<Longrightarrow> mounted r \<Longrightarrow> i \<in> timers r \<Longrightarrow>
   laps (cstate (rt_step r (Fire i))) = rev (laps (cstate r))"
proof -
  assume "rt_reach r" "mounted r" "i \<in> timers r"
  then have eq: "rt_step r (Fire i) = rerender (r\<lparr>cstate := tick (cstate r)\<rparr>)"
    by (rule rt_fire_render)
  show ?thesis by (simp only: eq) (simp add: tick_def)
qed

theorem rt_fire_reverses_laps_witness:
  "rt_reach (rt_run rt_init [UserClick Start, Fire 1, UserClick Lap, Fire 1, UserClick Lap]) \<and>
   mounted (rt_run rt_init [UserClick Start, Fire 1, UserClick Lap, Fire 1, UserClick Lap]) \<and>
   1 \<in> timers (rt_run rt_init [UserClick Start, Fire 1, UserClick Lap, Fire 1, UserClick Lap]) \<and>
   laps (cstate (rt_run rt_init [UserClick Start, Fire 1, UserClick Lap, Fire 1, UserClick Lap])) =
     [\<lparr>lap_time = 10, difference = 0\<rparr>, \<lparr>lap_time = 10, difference = 10\<rparr>] \<and>
   laps (cstate (rt_step (rt_run rt_init [UserClick Start, Fire 1, UserClick Lap, Fire 1, UserClick Lap]) (Fire 1))) =
     [\<lparr>lap_time = 10, difference = 10\<rparr>, \<lparr>lap_time = 10, difference = 0\<rparr>]"
proof -
  let ?r = "rt_run rt_init [UserClick Start, Fire 1, UserClick Lap, Fire 1, UserClick Lap]"
  have r: "rt_reach ?r" by (rule rt_reach_run [OF rt_reach.init])
  have m: "mounted ?r" and t: "1 \<in> timers ?r"
    and l: "laps (cstate ?r) = [\<lparr>lap_time = 10, difference = 0\<rparr>, \<lparr>lap_time = 10, difference = 10\<rparr>]"
    by code_simp+
  from rt_fire_reverses_laps [OF r m t] have
    "laps (cstate (rt_step ?r (Fire 1))) = [\<lparr>lap_time = 10, difference = 10\<rparr>, \<lparr>lap_time = 10, difference = 0\<rparr>]"
    unfolding l by simp
  with r m t l show ?thesis by blast
qed

text \<open>
  C16. Unmounting a component that is not running releases every timer.
\<close>

theorem rt_unmount_paused_releases:
  "rt_reach r \<Longrightarrow> mounted r \<Longrightarrow> \<not> running (cstate r) \<Longrightarrow> timers (rt_step r Unmount) = {}"
  by (simp add: rt_stopped_no_timer)

theorem rt_unmount_paused_releases_witness:
  "rt_reach (rt_run rt_init [UserClick Start, UserClick Stop]) \<and>
   mounted (rt_run rt_init [UserClick Start, UserClick Stop]) \<and>
   \<not> running (cstate (rt_run rt_init [UserClick Start, UserClick Stop])) \<and>
   timers (rt_step (rt_run rt_init [UserClick Start, UserClick Stop]) Unmount) = {}"
proof -
  have r: "rt_reach (rt_run rt_init [UserClick Start, UserClick Stop])"
    by (rule rt_reach_run [OF rt_reach.init])
  have m: "mounted (rt_run rt_init [UserClick Start, UserClick Stop])"
    and p: "\<not> running (cstate (rt_run rt_init [UserClick Start, UserClick Stop]))"
    by code_simp+
  from rt_unmount_paused_releases [OF r m p] r m p show ?thesis by simp
qed

text \<open>
  C25. The commit loop terminates: the effect sets \<open>intervalId\<close> but never
  \<open>running\<close>, its only dependency, so after the render of a state change at most
  one effect run happens and the loop settles on the state \<open>commit\<close> computes,
  for any fuel of at least two rounds.
\<close>

theorem effect_loop_settles:
  "2 \<le> n \<Longrightarrow> effect_loop n (rerender r) = Some (commit r)"
proof -
  assume "2 \<le> n"
  then obtain k where n: "n = k + 2" by (metis add.commute le_Suc_ex)
  have base: "effect_loop 2 (rerender r) = Some (commit r)"
    using run_effect_settles [of "rerender r"]
    by (simp add: commit_def numeral_2_eq_2 Let_def)
  have "effect_loop (k + 2) (rerender r) = Some (commit r)"
  proof (induction k)
    case 0
    from base show ?case by (simp only: add_0)
  next
    case (Suc k)
    from effect_loop_mono [OF Suc.IH] show ?case by (simp only: add_Suc)
  qed
  with n show ?thesis by simp
qed

theorem effect_loop_settles_witness:
  "(2::nat) \<le> 3 \<and> effect_loop 3 (rerender (rt_init\<lparr>cstate := handleStart (cstate rt_init)\<rparr>)) =
     Some (rt_step rt_init (UserClick Start))"
proof -
  have "rt_step rt_init (UserClick Start) = commit (rt_init\<lparr>cstate := handleStart (cstate rt_init)\<rparr>)"
    by code_simp
  then show ?thesis
    using effect_loop_settles [of 3 "rt_init\<lparr>cstate := handleStart (cstate rt_init)\<rparr>"] by simp
qed

end
