(* ===== verification/Refinement.thy ===== *)
theory Refinement
  imports Runtime
begin

text \<open>
  How the React component of \<open>Runtime\<close> relates to the contract machine
  \<open>sw_step\<close> of \<open>Stopwatch\<close> (spec section 4.1). The abstraction \<open>proj\<close>
  keeps elapsed time, running flag and lap count; \<open>abs_ev\<close> maps a runtime event to
  the contract events it stands for. The theory proves the forward simulation on
  \<open>proj\<close>, a stronger simulation in which the stored laps are the contract's laps
  up to the reversal done by rendering as long as at most two laps exist, the
  well-formedness of every reachable runtime state, and what the user can always
  still reach: a running timer keeps ticking, and a reset and stopped state is at
  most two clicks away. On screen: the rows are the contract's rows in one of the
  two orders while at most two laps exist, the labels always read n, ..., 1, every
  tick reverses the lap contents under the labels, a Lap click subtracts the lap in
  the bottom row (which is why the lap lists diverge beyond two laps), and the
  buttons agree with the browser timer.
\<close>

section \<open>Abstraction to the contract machine\<close>

text \<open>
  What the contract machine sees of the component: elapsed time, running flag and
  the number of recorded laps. A runtime event is a click, one tick of the contract
  when an active timer fires, and nothing otherwise.
\<close>

definition proj :: "stopwatch \<Rightarrow> ms \<times> bool \<times> nat" where
  "proj s = (time s, running s, length (laps s))"

fun abs_ev :: "runtime \<Rightarrow> rt_event \<Rightarrow> event list" where
  "abs_ev r (UserClick b) = (if mounted r then [Click b] else [])"
| "abs_ev r (Fire i) = (if mounted r \<and> i \<in> timers r then [Tick] else [])"
| "abs_ev r Unmount = []"

fun abs_run :: "runtime \<Rightarrow> rt_event list \<Rightarrow> event list" where
  "abs_run r [] = []"
| "abs_run r (e # es) = abs_ev r e @ abs_run (rt_step r e) es"

text \<open>
  The stronger simulation: same projection, and while the contract holds at most
  two laps the stored array is the contract's lap list or its reverse.
\<close>

definition laps_rel :: "lap list \<Rightarrow> lap list \<Rightarrow> bool" where
  "laps_rel xs ys \<longleftrightarrow> (length ys \<le> 2 \<longrightarrow> xs = ys \<or> xs = rev ys)"

definition sim :: "runtime \<Rightarrow> stopwatch \<Rightarrow> bool" where
  "sim r a \<longleftrightarrow> proj (cstate r) = proj a \<and> laps_rel (laps (cstate r)) (laps a)"

section \<open>Simulation on the projection\<close>

lemma proj_commit [simp]: "proj (cstate (commit r)) = proj (cstate r)"
  by (simp add: proj_def commit_def run_effect_def rerender_def render_state Let_def)

lemma proj_step_sw:
  assumes "rt_reach r"
  shows "proj (cstate (rt_step r e)) = proj (sw_run (cstate r) (abs_ev r e))"
proof (cases "mounted r")
  case False
  then show ?thesis by (cases e) simp_all
next
  case m: True
  show ?thesis
  proof (cases e)
    case (UserClick b)
    then show ?thesis using m by (simp add: click_def)
  next
    case (Fire i)
    have "i \<in> timers r \<Longrightarrow> running (cstate r)"
      using timers_running [OF assms m] by auto
    moreover have "proj (cstate (rt_step r e)) =
                   (if i \<in> timers r then proj (tick (cstate r)) else proj (cstate r))"
      using Fire m by simp
    ultimately show ?thesis using Fire m by simp
  next
    case Unmount
    then show ?thesis by (simp add: proj_def)
  qed
qed

lemma proj_sw_step_cong: "proj s = proj s' \<Longrightarrow> proj (sw_step s e) = proj (sw_step s' e)"
proof (cases e)
  case (Click b)
  then show "proj s = proj s' \<Longrightarrow> proj (sw_step s e) = proj (sw_step s' e)"
    by (simp add: proj_def click_def handler_fields del: handler.simps)
next
  case Tick
  then show "proj s = proj s' \<Longrightarrow> proj (sw_step s e) = proj (sw_step s' e)"
    by (simp add: proj_def tick_def)
qed

lemma proj_sw_run_cong: "proj s = proj s' \<Longrightarrow> proj (sw_run s es) = proj (sw_run s' es)"
proof (induction es arbitrary: s s')
  case Nil
  then show ?case by simp
next
  case (Cons e es)
  from proj_sw_step_cong [OF Cons.prems] have "proj (sw_step s e) = proj (sw_step s' e)" .
  then have "proj (sw_run (sw_step s e) es) = proj (sw_run (sw_step s' e) es)"
    by (rule Cons.IH)
  then show ?case by simp
qed

section \<open>The stronger simulation\<close>

lemma laps_rel_rev: "laps_rel xs ys \<Longrightarrow> laps_rel (rev xs) ys"
  by (auto simp: laps_rel_def)

lemma laps_commit: "laps (cstate (commit r)) = laps (cstate r) \<or> laps (cstate (commit r)) = rev (laps (cstate r))"
  by (simp add: commit_def run_effect_def Let_def rerender_def render_state)

lemma laps_rel_commit: "laps_rel (laps (cstate r)) ys \<Longrightarrow> laps_rel (laps (cstate (commit r))) ys"
  using laps_commit [of r] laps_rel_rev by metis

lemma disabled_running: "running c = running a \<Longrightarrow> disabled c b = disabled a b"
  by (cases b) simp_all

lemma handler_laps_rel:
  assumes t: "time c = time a" and l: "laps_rel (laps c) (laps a)"
  shows "laps_rel (laps (handler b c)) (laps (handler b a))"
proof (cases b)
  case Lap
  show ?thesis
  proof (cases "length (laps a) \<le> 1")
    case True
    with l have "laps c = laps a" by (auto simp: laps_rel_def rev_singleton_eq)
    with t Lap show ?thesis by (simp add: handleLap_laps laps_rel_def)
  next
    case False
    with Lap show ?thesis by (simp add: handleLap_laps laps_rel_def)
  qed
qed (use l in \<open>simp_all add: sw_defs laps_rel_def\<close>)

lemma sim_step:
  assumes reach: "rt_reach r" and s: "sim r a"
  shows "sim (rt_step r e) (sw_run a (abs_ev r e))"
proof -
  from s have pr: "proj (cstate r) = proj a" and lr: "laps_rel (laps (cstate r)) (laps a)"
    by (simp_all add: sim_def)
  have proj_ok: "proj (cstate (rt_step r e)) = proj (sw_run a (abs_ev r e))"
    by (rule trans [OF proj_step_sw [OF reach] proj_sw_run_cong [OF pr]])
  from pr have t: "time (cstate r) = time a" and rn: "running (cstate r) = running a"
    by (simp_all add: proj_def)
  have "laps_rel (laps (cstate (rt_step r e))) (laps (sw_run a (abs_ev r e)))"
  proof (cases "mounted r")
    case False
    with lr show ?thesis by (cases e) simp_all
  next
    case m: True
    show ?thesis
    proof (cases e)
      case (UserClick b)
      show ?thesis
      proof (cases "disabled (cstate r) b")
        case True
        moreover have "disabled a b" using True disabled_running [OF rn] by simp
        ultimately show ?thesis using m lr UserClick by (simp add: click_def)
      next
        case False
        have "laps_rel (laps (handler b (cstate r))) (laps (handler b a))"
          using handler_laps_rel [OF t lr] .
        then have "laps_rel (laps (cstate (commit (r\<lparr>cstate := handler b (cstate r)\<rparr>)))) (laps (handler b a))"
          using laps_rel_commit [of "r\<lparr>cstate := handler b (cstate r)\<rparr>"] by simp
        moreover have "\<not> disabled a b" using False disabled_running [OF rn] by simp
        ultimately show ?thesis using m False UserClick by (simp add: click_def)
      qed
    next
      case (Fire i)
      have "laps_rel (laps (cstate (commit (r\<lparr>cstate := tick (cstate r)\<rparr>)))) (laps a)"
        using laps_rel_commit [of "r\<lparr>cstate := tick (cstate r)\<rparr>"] lr by (simp add: tick_def)
      with m lr Fire show ?thesis by (simp add: tick_def)
    next
      case Unmount
      with lr show ?thesis by simp
    qed
  qed
  with proj_ok show ?thesis by (simp add: sim_def)
qed

lemma sim_run: "rt_reach r \<Longrightarrow> sim r a \<Longrightarrow> sim (rt_run r es) (sw_run a (abs_run r es))"
proof (induction es arbitrary: r a)
  case Nil
  then show ?case by simp
next
  case (Cons e es)
  have "rt_reach (rt_step r e)" using Cons.prems(1) by (rule rt_reach.step)
  moreover have "sim (rt_step r e) (sw_run a (abs_ev r e))" using Cons.prems by (rule sim_step)
  ultimately have "sim (rt_run (rt_step r e) es) (sw_run (sw_run a (abs_ev r e)) (abs_run (rt_step r e) es))"
    by (rule Cons.IH)
  then show ?case by (simp add: sw_run_def)
qed

lemma cstate_rt_init [simp]: "cstate rt_init = sw_init"
  by code_simp

lemma sim_init: "sim rt_init sw_init"
  by (simp add: sim_def laps_rel_def sw_init_def)

lemma rt_reach_sw_inv: "rt_reach r \<Longrightarrow> sw_inv (cstate r)"
proof (induction rule: rt_reach.induct)
  case init
  show ?case by simp
next
  case (step r e)
  have "sw_inv (sw_run (cstate r) (abs_ev r e))"
    using step.IH by (rule sw_run_preserves_inv)
  moreover have "time (cstate (rt_step r e)) = time (sw_run (cstate r) (abs_ev r e))"
    using proj_step_sw [OF step.hyps] by (simp add: proj_def)
  ultimately show ?case by (simp add: sw_inv_def)
qed

lemma commit_fields [simp]:
  "time (cstate (commit r)) = time (cstate r)" "running (cstate (commit r)) = running (cstate r)"
  "length (laps (cstate (commit r))) = length (laps (cstate r))"
  using proj_commit [of r] unfolding proj_def by simp_all

lemma click_reset_when_stopped:
  assumes "rt_reach r" "mounted r" "\<not> running (cstate r)"
  shows "mounted (rt_step r (UserClick Reset)) \<and> \<not> running (cstate (rt_step r (UserClick Reset))) \<and>
         timers (rt_step r (UserClick Reset)) = {} \<and> time (cstate (rt_step r (UserClick Reset))) = 0 \<and>
         laps (cstate (rt_step r (UserClick Reset))) = []"
proof -
  let ?r = "rt_step r (UserClick Reset)"
  have eq: "?r = commit (r\<lparr>cstate := handleReset (cstate r)\<rparr>)" using assms(2) by simp
  have m: "mounted ?r" using assms(2) by (simp only: eq mounted_commit) simp
  have nr: "\<not> running (cstate ?r)" using assms(3) by (simp only: eq commit_fields) (simp add: handleReset_def)
  have t: "time (cstate ?r) = 0" by (simp only: eq commit_fields) (simp add: handleReset_def)
  have "length (laps (cstate ?r)) = 0" by (simp only: eq commit_fields) (simp add: handleReset_def)
  then have l: "laps (cstate ?r) = []" by simp
  have "timers ?r = {}"
    using rt_stopped_no_timer [OF rt_reach.step [OF assms(1)] m nr] .
  with m nr t l show ?thesis by simp
qed

lemma click_stop_when_running:
  assumes "rt_reach r" "mounted r" "running (cstate r)"
  shows "rt_reach (rt_step r (UserClick Stop)) \<and> mounted (rt_step r (UserClick Stop)) \<and>
         \<not> running (cstate (rt_step r (UserClick Stop)))"
proof -
  have eq: "rt_step r (UserClick Stop) = commit (r\<lparr>cstate := handleStop (cstate r)\<rparr>)"
    using assms(2,3) by simp
  have "mounted (rt_step r (UserClick Stop)) \<and> \<not> running (cstate (rt_step r (UserClick Stop)))"
    using assms(2) by (simp only: eq mounted_commit commit_fields) (simp add: handleStop_def)
  moreover have "rt_reach (rt_step r (UserClick Stop))" by (rule rt_reach.step [OF assms(1)])
  ultimately show ?thesis by blast
qed

section \<open>Properties\<close>

text \<open>
  C2. Refinement: along any sequence of runtime events from a reachable state, the
  component's elapsed time, running flag and number of laps are those of the contract
  machine run on the corresponding clicks and ticks (a tick for each firing of an
  active timer while mounted).
\<close>

theorem rt_refines_contract:
  "rt_reach r \<Longrightarrow> proj (cstate (rt_run r es)) = proj (sw_run (cstate r) (abs_run r es))"
proof (induction es arbitrary: r)
  case Nil
  then show ?case by simp
next
  case (Cons e es)
  have "rt_reach (rt_step r e)" using Cons.prems by (rule rt_reach.step)
  then have "proj (cstate (rt_run (rt_step r e) es)) =
             proj (sw_run (cstate (rt_step r e)) (abs_run (rt_step r e) es))"
    by (rule Cons.IH)
  also have "\<dots> = proj (sw_run (sw_run (cstate r) (abs_ev r e)) (abs_run (rt_step r e) es))"
    using proj_step_sw [OF Cons.prems] by (rule proj_sw_run_cong)
  finally show ?case by (simp add: sw_run_def)
qed

theorem rt_refines_contract_witness:
  "rt_reach rt_init \<and>
   proj (cstate (rt_run rt_init [UserClick Start, Fire 1, Fire 2, UserClick Lap])) = (10, True, 1)"
proof -
  have "proj (sw_run (cstate rt_init) (abs_run rt_init [UserClick Start, Fire 1, Fire 2, UserClick Lap])) =
        (10, True, 1)"
    by code_simp
  moreover have "proj (cstate (rt_run rt_init [UserClick Start, Fire 1, Fire 2, UserClick Lap])) =
      proj (sw_run (cstate rt_init) (abs_run rt_init [UserClick Start, Fire 1, Fire 2, UserClick Lap]))"
    by (rule rt_refines_contract [OF rt_reach.init])
  ultimately show ?thesis using rt_reach.init by simp
qed

text \<open>
  C19. Laps up to rendering: as long as the contract holds at most two laps, the
  lap array stored by the component (on any event sequence from mounting) is the
  contract's lap list or its reverse. Beyond two laps the stored array can be
  neither, since a Lap click subtracts whichever lap is at the bottom (C10).
\<close>

theorem rt_laps_up_to_reversal:
  "length (laps (sw_run sw_init (abs_run rt_init es))) \<le> 2 \<Longrightarrow>
   laps (cstate (rt_run rt_init es)) = laps (sw_run sw_init (abs_run rt_init es)) \<or>
   laps (cstate (rt_run rt_init es)) = rev (laps (sw_run sw_init (abs_run rt_init es)))"
  using sim_run [OF rt_reach.init sim_init, of es] by (simp add: sim_def laps_rel_def)

theorem rt_laps_up_to_reversal_witness:
  "length (laps (sw_run sw_init (abs_run rt_init
     [UserClick Start, Fire 1, UserClick Lap, Fire 1, UserClick Lap, Fire 1]))) \<le> 2 \<and>
   (laps (cstate (rt_run rt_init [UserClick Start, Fire 1, UserClick Lap, Fire 1, UserClick Lap, Fire 1])) =
      laps (sw_run sw_init (abs_run rt_init [UserClick Start, Fire 1, UserClick Lap, Fire 1, UserClick Lap, Fire 1])) \<or>
    laps (cstate (rt_run rt_init [UserClick Start, Fire 1, UserClick Lap, Fire 1, UserClick Lap, Fire 1])) =
      rev (laps (sw_run sw_init (abs_run rt_init [UserClick Start, Fire 1, UserClick Lap, Fire 1, UserClick Lap, Fire 1]))))"
proof -
  have h: "length (laps (sw_run sw_init (abs_run rt_init
     [UserClick Start, Fire 1, UserClick Lap, Fire 1, UserClick Lap, Fire 1]))) \<le> 2"
    by code_simp
  from rt_laps_up_to_reversal [OF h] h show ?thesis by blast
qed

text \<open>
  C20. The elapsed time on screen (the view of the last render) is always
  \<open>formatTime\<close> of the contract's elapsed time, and the screen lists as many rows
  as the contract has laps.
\<close>

theorem rt_display_refines:
  "display (shown (rt_run rt_init es)) = formatTime (time (sw_run sw_init (abs_run rt_init es))) \<and>
   length (rows (shown (rt_run rt_init es))) = length (laps (sw_run sw_init (abs_run rt_init es)))"
  using sim_run [OF rt_reach.init sim_init, of es] rt_reach_shown [OF rt_reach_run [OF rt_reach.init], of es]
  by (simp add: sim_def proj_def render_display render_rows)

text \<open>
  C21. Every reachable runtime state is well formed: timer handles are positive and
  below the next handle, the elapsed time is a non-negative multiple of 10, and while
  mounted the effect's recorded dependency is the current running flag.
\<close>

theorem rt_state_wf:
  "rt_reach r \<Longrightarrow>
   ids_bounded r \<and> 0 \<le> time (cstate r) \<and> 10 dvd time (cstate r) \<and>
   (mounted r \<longrightarrow> effect_deps r = Some (running (cstate r)))"
  using rt_reach_inv [of r] rt_reach_sw_inv [of r]
  by (auto simp: rt_inv_def timer_agrees_def sw_inv_def)

theorem rt_state_wf_witness:
  "rt_reach (rt_step rt_init (UserClick Start)) \<and> ids_bounded (rt_step rt_init (UserClick Start)) \<and>
   time (cstate (rt_step rt_init (UserClick Start))) = 0"
proof -
  have "time (cstate (rt_step rt_init (UserClick Start))) = 0" by code_simp
  with rt_state_wf [OF rt_reach_start] rt_reach_start show ?thesis by simp
qed

text \<open>
  C22. Progress of the tick source: in a reachable mounted running state some
  active timer can fire any number of times, and n firings advance the elapsed time
  by 10 n while the stopwatch keeps running.
\<close>

theorem rt_timer_progress:
  "rt_reach r \<Longrightarrow> mounted r \<Longrightarrow> running (cstate r) \<Longrightarrow>
   \<exists>i. i \<in> timers r \<and> (\<forall>n. time (cstate (rt_run r (replicate n (Fire i)))) = time (cstate r) + 10 * int n \<and>
                          running (cstate (rt_run r (replicate n (Fire i)))))"
proof -
  assume a: "rt_reach r" "mounted r" "running (cstate r)"
  then obtain i where "timers r = {i}" by (rule rt_running_handle)
  then have i: "i \<in> timers r" by simp
  show ?thesis using rt_fire_run [OF a(1,2) i] a(3) i by blast
qed

theorem rt_timer_progress_witness:
  "rt_reach (rt_step rt_init (UserClick Start)) \<and> mounted (rt_step rt_init (UserClick Start)) \<and>
   running (cstate (rt_step rt_init (UserClick Start))) \<and>
   (\<exists>i. i \<in> timers (rt_step rt_init (UserClick Start)) \<and>
        time (cstate (rt_run (rt_step rt_init (UserClick Start)) (replicate 100 (Fire i)))) = 1000)"
proof -
  have m: "mounted (rt_step rt_init (UserClick Start))"
    and r: "running (cstate (rt_step rt_init (UserClick Start)))"
    and t: "time (cstate (rt_step rt_init (UserClick Start))) = 0"
    by code_simp+
  from rt_timer_progress [OF rt_reach_start m r] t
  have "\<exists>i. i \<in> timers (rt_step rt_init (UserClick Start)) \<and>
        time (cstate (rt_run (rt_step rt_init (UserClick Start)) (replicate 100 (Fire i)))) = 1000"
    by fastforce
  with m r rt_reach_start show ?thesis by blast
qed

text \<open>
  C23. Recoverability: from every reachable mounted state at most two clicks (Stop if
  running, then Reset) reach a mounted state that is stopped, has no active timer,
  shows 0 and has no laps.
\<close>

theorem rt_reset_reachable:
  "rt_reach r \<Longrightarrow> mounted r \<Longrightarrow>
   \<exists>es. length es \<le> 2 \<and> mounted (rt_run r es) \<and> \<not> running (cstate (rt_run r es)) \<and>
        timers (rt_run r es) = {} \<and> time (cstate (rt_run r es)) = 0 \<and> laps (cstate (rt_run r es)) = []"
proof -
  assume a: "rt_reach r" "mounted r"
  show ?thesis
  proof (cases "running (cstate r)")
    case False
    with click_reset_when_stopped [OF a False] show ?thesis
      by (intro exI [of _ "[UserClick Reset]"]) simp
  next
    case True
    let ?r1 = "rt_step r (UserClick Stop)"
    from click_stop_when_running [OF a True]
    have r1: "rt_reach ?r1" "mounted ?r1" "\<not> running (cstate ?r1)" by simp_all
    from click_reset_when_stopped [OF r1] show ?thesis
      by (intro exI [of _ "[UserClick Stop, UserClick Reset]"]) simp
  qed
qed

theorem rt_reset_reachable_witness:
  "rt_reach (rt_run rt_init [UserClick Start, Fire 1, UserClick Lap]) \<and>
   mounted (rt_run rt_init [UserClick Start, Fire 1, UserClick Lap]) \<and>
   (\<exists>es. length es \<le> 2 \<and> timers (rt_run (rt_run rt_init [UserClick Start, Fire 1, UserClick Lap]) es) = {})"
proof -
  have r: "rt_reach (rt_run rt_init [UserClick Start, Fire 1, UserClick Lap])"
    by (rule rt_reach_run [OF rt_reach.init])
  have m: "mounted (rt_run rt_init [UserClick Start, Fire 1, UserClick Lap])"
    by code_simp
  from rt_reset_reachable [OF r m] r m show ?thesis by blast
qed

text \<open>
  C27. The lap rows on screen, as long as the contract holds at most two laps, are
  the contract's rows newest-first (as the specification asks) or oldest-first,
  depending on the parity of the renders since the last lap.
\<close>

theorem rt_screen_rows_up_to_order:
  "length (laps (sw_run sw_init (abs_run rt_init es))) \<le> 2 \<Longrightarrow>
   rows (shown (rt_run rt_init es)) = rows (fst (render (sw_run sw_init (abs_run rt_init es)))) \<or>
   rows (shown (rt_run rt_init es)) = rows (fst (render (snd (render (sw_run sw_init (abs_run rt_init es))))))"
proof -
  let ?r = "rt_run rt_init es" and ?a = "sw_run sw_init (abs_run rt_init es)"
  assume h: "length (laps ?a) \<le> 2"
  from sim_run [OF rt_reach.init sim_init, of es] h
  have l: "laps (cstate ?r) = laps ?a \<or> laps (cstate ?r) = rev (laps ?a)"
    by (simp add: sim_def laps_rel_def)
  have rows_r: "rows (shown ?r) = map (\<lambda>(i, l). lap_row (length (laps (cstate ?r))) i l) (enumerate 0 (laps (cstate ?r)))"
    by (rule rt_reach_shown_rows [OF rt_reach_run [OF rt_reach.init]])
  from l show ?thesis
    by (auto simp: rows_r render_rows render_state)
qed

theorem rt_screen_rows_up_to_order_witness:
  "length (laps (sw_run sw_init (abs_run rt_init [UserClick Start, Fire 1, UserClick Lap]))) \<le> 2 \<and>
   (rows (shown (rt_run rt_init [UserClick Start, Fire 1, UserClick Lap])) =
      rows (fst (render (sw_run sw_init (abs_run rt_init [UserClick Start, Fire 1, UserClick Lap])))) \<or>
    rows (shown (rt_run rt_init [UserClick Start, Fire 1, UserClick Lap])) =
      rows (fst (render (snd (render (sw_run sw_init (abs_run rt_init [UserClick Start, Fire 1, UserClick Lap])))))))"
proof -
  have h: "length (laps (sw_run sw_init (abs_run rt_init [UserClick Start, Fire 1, UserClick Lap]))) \<le> 2"
    by code_simp
  from rt_screen_rows_up_to_order [OF h] h show ?thesis by blast
qed

lemma rt_click_render:
  assumes "rt_reach r" "mounted r" "\<not> disabled (cstate r) b"
    and "running (handler b (cstate r)) = running (cstate r)"
  shows "rt_step r (UserClick b) = rerender (r\<lparr>cstate := handler b (cstate r)\<rparr>)"
proof -
  have "effect_deps r = Some (running (cstate r))"
    using rt_reach_inv [OF assms(1)] assms(2) by (simp add: rt_inv_def timer_agrees_def)
  with assms(2-4) show ?thesis by (simp add: commit_def)
qed

lemma enumerate_eq_Nil [simp]: "enumerate k xs = [] \<longleftrightarrow> xs = []"
  by (cases xs) simp_all

lemma last_enumerate: "xs \<noteq> [] \<Longrightarrow> last (enumerate k xs) = (k + (length xs - 1), last xs)"
  by (simp add: last_conv_nth nth_enumerate_eq)

lemma rows_enumerate_rev:
  "map fst (map (\<lambda>(i, l). lap_row (length xs) i l) (enumerate 0 (rev xs))) =
     map fst (map (\<lambda>(i, l). lap_row (length xs) i l) (enumerate 0 xs)) \<and>
   map snd (map (\<lambda>(i, l). lap_row (length xs) i l) (enumerate 0 (rev xs))) =
     rev (map snd (map (\<lambda>(i, l). lap_row (length xs) i l) (enumerate 0 xs)))"
proof
  show "map fst (map (\<lambda>(i, l). lap_row (length xs) i l) (enumerate 0 (rev xs))) =
        map fst (map (\<lambda>(i, l). lap_row (length xs) i l) (enumerate 0 xs))"
    by (rule nth_equalityI) (simp_all add: nth_enumerate_eq lap_row_def)
  show "map snd (map (\<lambda>(i, l). lap_row (length xs) i l) (enumerate 0 (rev xs))) =
        rev (map snd (map (\<lambda>(i, l). lap_row (length xs) i l) (enumerate 0 xs)))"
    by (rule nth_equalityI) (simp_all add: nth_enumerate_eq rev_nth lap_row_def)
qed

text \<open>
  C10. A Lap click computes the new lap from the lap shown in the bottom row of the
  list (label 01), the last element of the stored array, and not from the newest
  lap: the new lap's time is the elapsed time minus that lap's time (a duration, not
  a timestamp) and its difference subtracts it once more. The new lap then appears
  in the top row with the highest label. Since every tick flips which lap is at the
  bottom (C28), the lap a Lap click subtracts is the newest or the oldest depending
  on the parity of the ticks since the last click.
\<close>

theorem rt_lap_from_bottom_row:
  assumes "rt_reach r" "mounted r" "running (cstate r)" "laps (cstate r) \<noteq> []"
  shows "last (rows (shown r)) =
           lap_row (length (laps (cstate r))) (length (laps (cstate r)) - 1) (last (laps (cstate r))) \<and>
         hd (rows (shown (rt_step r (UserClick Lap)))) =
           lap_row (Suc (length (laps (cstate r)))) 0
             \<lparr>lap_time = time (cstate r) - lap_time (last (laps (cstate r))),
              difference = time (cstate r) - lap_time (last (laps (cstate r))) - lap_time (last (laps (cstate r)))\<rparr>"
proof
  show "last (rows (shown r)) =
          lap_row (length (laps (cstate r))) (length (laps (cstate r)) - 1) (last (laps (cstate r)))"
    using assms(4) by (simp add: rt_reach_shown_rows [OF assms(1)] last_map last_enumerate)
  have "running (handler Lap (cstate r)) = running (cstate r)" by (simp add: handleLap_def Let_def)
  with assms(1-3) have eq: "rt_step r (UserClick Lap) = rerender (r\<lparr>cstate := handleLap (cstate r)\<rparr>)"
    using rt_click_render [of r Lap] by simp
  have "rows (shown (rt_step r (UserClick Lap))) = rows (fst (render (handleLap (cstate r))))"
    by (simp only: eq) (simp add: rerender_def)
  then show "hd (rows (shown (rt_step r (UserClick Lap)))) =
          lap_row (Suc (length (laps (cstate r)))) 0
            \<lparr>lap_time = time (cstate r) - lap_time (last (laps (cstate r))),
             difference = time (cstate r) - lap_time (last (laps (cstate r))) - lap_time (last (laps (cstate r)))\<rparr>"
    unfolding render_rows using assms(4) by (simp add: handleLap_laps last_lap_time_def)
qed

theorem rt_lap_from_bottom_row_witness:
  "rt_reach (rt_run rt_init [UserClick Start, Fire 1, Fire 1, UserClick Lap, Fire 1, UserClick Lap]) \<and>
   mounted (rt_run rt_init [UserClick Start, Fire 1, Fire 1, UserClick Lap, Fire 1, UserClick Lap]) \<and>
   running (cstate (rt_run rt_init [UserClick Start, Fire 1, Fire 1, UserClick Lap, Fire 1, UserClick Lap])) \<and>
   laps (cstate (rt_run rt_init [UserClick Start, Fire 1, Fire 1, UserClick Lap, Fire 1, UserClick Lap])) =
     [\<lparr>lap_time = 10, difference = -10\<rparr>, \<lparr>lap_time = 20, difference = 20\<rparr>] \<and>
   last (rows (shown (rt_run rt_init [UserClick Start, Fire 1, Fire 1, UserClick Lap, Fire 1, UserClick Lap]))) =
     lap_row 2 1 (last (laps (cstate (rt_run rt_init [UserClick Start, Fire 1, Fire 1, UserClick Lap, Fire 1, UserClick Lap]))))"
proof -
  let ?r = "rt_run rt_init [UserClick Start, Fire 1, Fire 1, UserClick Lap, Fire 1, UserClick Lap]"
  have r: "rt_reach ?r" by (rule rt_reach_run [OF rt_reach.init])
  have m: "mounted ?r" and run: "running (cstate ?r)" and ne: "laps (cstate ?r) \<noteq> []"
    and l: "laps (cstate ?r) = [\<lparr>lap_time = 10, difference = -10\<rparr>, \<lparr>lap_time = 20, difference = 20\<rparr>]"
    by code_simp+
  have n: "length (laps (cstate ?r)) = 2" unfolding l by simp
  from rt_lap_from_bottom_row [OF r m run ne] have
    "last (rows (shown ?r)) = lap_row 2 1 (last (laps (cstate ?r)))"
    unfolding n by simp
  with r m run l show ?thesis by blast
qed

text \<open>
  C28. Every tick flips the lap rows on screen against their labels: the labels stay
  where they are (n, ..., 1 from the top), and the lap contents under them appear in
  the reverse order. So the highest label, which the specification gives to the
  newest lap, sits on the newest lap after one tick and on the oldest after the next
  whenever the laps differ.
\<close>

theorem rt_screen_labels_flip:
  assumes "rt_reach r" "mounted r" "i \<in> timers r"
  shows "map fst (rows (shown (rt_step r (Fire i)))) = map fst (rows (shown r)) \<and>
         map snd (rows (shown (rt_step r (Fire i)))) = rev (map snd (rows (shown r)))"
proof -
  have eq: "rt_step r (Fire i) = rerender (r\<lparr>cstate := tick (cstate r)\<rparr>)"
    using assms by (rule rt_fire_render)
  have r': "rt_reach (rt_step r (Fire i))" using assms(1) by (rule rt_reach.step)
  have l': "laps (cstate (rt_step r (Fire i))) = rev (laps (cstate r))"
    by (simp only: eq) (simp add: tick_def)
  have rows': "rows (shown (rt_step r (Fire i))) =
      map (\<lambda>(i, l). lap_row (length (laps (cstate r))) i l) (enumerate 0 (rev (laps (cstate r))))"
    using rt_reach_shown_rows [OF r'] unfolding l' length_rev .
  have rows: "rows (shown r) = map (\<lambda>(i, l). lap_row (length (laps (cstate r))) i l) (enumerate 0 (laps (cstate r)))"
    by (rule rt_reach_shown_rows [OF assms(1)])
  show ?thesis unfolding rows' rows by (rule rows_enumerate_rev)
qed

theorem rt_screen_labels_flip_witness:
  "rt_reach (rt_run rt_init [UserClick Start, Fire 1, Fire 1, UserClick Lap, Fire 1, UserClick Lap]) \<and>
   mounted (rt_run rt_init [UserClick Start, Fire 1, Fire 1, UserClick Lap, Fire 1, UserClick Lap]) \<and>
   1 \<in> timers (rt_run rt_init [UserClick Start, Fire 1, Fire 1, UserClick Lap, Fire 1, UserClick Lap]) \<and>
   rows (shown (rt_run rt_init [UserClick Start, Fire 1, Fire 1, UserClick Lap, Fire 1, UserClick Lap])) =
     [(''02'', ''+00:00:00.01'', ''-1:-1:-1.-1''), (''01'', ''+00:00:00.02'', ''00:00:00.02'')] \<and>
   map snd (rows (shown (rt_step (rt_run rt_init [UserClick Start, Fire 1, Fire 1, UserClick Lap, Fire 1, UserClick Lap]) (Fire 1)))) =
     [(''+00:00:00.02'', ''00:00:00.02''), (''+00:00:00.01'', ''-1:-1:-1.-1'')]"
proof -
  let ?r = "rt_run rt_init [UserClick Start, Fire 1, Fire 1, UserClick Lap, Fire 1, UserClick Lap]"
  have r: "rt_reach ?r" by (rule rt_reach_run [OF rt_reach.init])
  have m: "mounted ?r" and t: "1 \<in> timers ?r" by code_simp+
  have v: "rows (shown ?r) = [(''02'', ''+00:00:00.01'', ''-1:-1:-1.-1''), (''01'', ''+00:00:00.02'', ''00:00:00.02'')]"
    by code_simp
  from rt_screen_labels_flip [OF r m t] have
    "map snd (rows (shown (rt_step ?r (Fire 1)))) = [(''+00:00:00.02'', ''00:00:00.02''), (''+00:00:00.01'', ''-1:-1:-1.-1'')]"
    unfolding v by simp
  with r m t v show ?thesis by blast
qed

lemma disabled_laps_update [simp]: "disabled (s\<lparr>laps := ls\<rparr>) b = disabled s b"
  by (cases b) simp_all

lemma rt_reach_shown_buttons:
  "rt_reach r \<Longrightarrow> buttons (shown r) = map (\<lambda>b. (b, disabled (cstate r) b)) [Start, Pause, Stop, Reset, Lap]"
  by (simp add: rt_reach_shown render_def Let_def)

text \<open>
  C29. The buttons on screen agree with the browser timer in every reachable mounted
  state (the state table of section 4.1): Start is enabled exactly when no timer is
  active, Pause, Stop and Lap exactly when one is, and Reset always; a click on a
  button the screen shows as disabled changes nothing.
\<close>

theorem rt_screen_buttons:
  assumes "rt_reach r" "mounted r"
  shows "buttons (shown r) =
           [(Start, timers r \<noteq> {}), (Pause, timers r = {}), (Stop, timers r = {}),
            (Reset, False), (Lap, timers r = {})] \<and>
         ((b, True) \<in> set (buttons (shown r)) \<longrightarrow> rt_step r (UserClick b) = r)"
proof -
  have bs: "buttons (shown r) = map (\<lambda>b. (b, disabled (cstate r) b)) [Start, Pause, Stop, Reset, Lap]"
    using rt_reach_shown_buttons [OF assms(1)] .
  have tr: "running (cstate r) \<longleftrightarrow> timers r \<noteq> {}"
    using timers_running [OF assms] .
  have "(b, True) \<in> set (buttons (shown r)) \<Longrightarrow> disabled (cstate r) b"
    by (cases b) (auto simp: bs)
  then show ?thesis using bs tr by auto
qed

theorem rt_screen_buttons_witness:
  "rt_reach (rt_run rt_init [UserClick Start]) \<and> mounted (rt_run rt_init [UserClick Start]) \<and>
   buttons (shown (rt_run rt_init [UserClick Start])) =
     [(Start, True), (Pause, False), (Stop, False), (Reset, False), (Lap, False)] \<and>
   rt_step (rt_run rt_init [UserClick Start]) (UserClick Start) = rt_run rt_init [UserClick Start]"
proof -
  let ?r = "rt_run rt_init [UserClick Start]"
  have r: "rt_reach ?r" by (rule rt_reach_run [OF rt_reach.init])
  have m: "mounted ?r" and t: "timers ?r = {1}" by code_simp+
  from rt_screen_buttons [OF r m, of Start] have
    "buttons (shown ?r) = [(Start, True), (Pause, False), (Stop, False), (Reset, False), (Lap, False)] \<and>
     rt_step ?r (UserClick Start) = ?r"
    unfolding t by simp
  with r m show ?thesis by blast
qed

text \<open>
  C30. The elapsed time never goes back except through Stop and Reset: a click on
  Start, Pause or Lap, a timer firing and the unmount leave it or increase it
  (Start resumes from the current time, section 4.1).
\<close>

theorem rt_time_monotone:
  assumes "e \<noteq> UserClick Stop" and "e \<noteq> UserClick Reset"
  shows "time (cstate r) \<le> time (cstate (rt_step r e))"
proof (cases e)
  case (UserClick b)
  with assms show ?thesis by (simp add: handler_time)
next
  case (Fire i)
  then show ?thesis by (simp add: tick_def)
next
  case Unmount
  then show ?thesis by simp
qed

theorem rt_time_monotone_witness:
  "Fire 1 \<noteq> UserClick Stop \<and> Fire 1 \<noteq> UserClick Reset \<and>
   time (cstate (rt_run rt_init [UserClick Start])) \<le> time (cstate (rt_step (rt_run rt_init [UserClick Start]) (Fire 1)))"
  using rt_time_monotone [of "Fire 1" "rt_run rt_init [UserClick Start]"] by simp

lemma lap_row_label_read: "i < n \<Longrightarrow> parse_nat (fst (lap_row n i l)) = Some (n - i)"
proof -
  assume "i < n"
  then have "int n - int i = int (n - i)" by simp
  then have "js_toString (int n - int i) = digits (n - i)"
    by (simp only: js_toString_nonneg of_nat_0_le_iff nat_int)
  then show ?thesis by (simp add: lap_row_def padStart_def)
qed

lemma labels_enumerate:
  "map (parse_nat \<circ> fst \<circ> (\<lambda>(i, l). lap_row (length xs) i l)) (enumerate 0 xs) =
   map (\<lambda>i. Some (length xs - i)) [0..<length xs]"
  by (rule nth_equalityI) (simp_all add: nth_enumerate_eq lap_row_label_read)

text \<open>
  C31. In every reachable state the labels of the rows on screen read back as the
  numbers n, n - 1, ..., 1 from top to bottom, n the number of laps: the labels are
  1-based, descending and zero-padded decimals (section 4.3 of the specification),
  whatever order the laps themselves are in.
\<close>

theorem rt_screen_labels_read_back:
  "rt_reach r \<Longrightarrow>
   map (parse_nat \<circ> fst) (rows (shown r)) =
     map (\<lambda>i. Some (length (laps (cstate r)) - i)) [0..<length (laps (cstate r))]"
  using labels_enumerate [of "laps (cstate r)"] by (simp add: rt_reach_shown_rows)

theorem rt_screen_labels_read_back_witness:
  "rt_reach (rt_run rt_init [UserClick Start, Fire 1, UserClick Lap, UserClick Lap]) \<and>
   map (parse_nat \<circ> fst) (rows (shown (rt_run rt_init [UserClick Start, Fire 1, UserClick Lap, UserClick Lap]))) =
     [Some 2, Some 1]"
proof -
  let ?r = "rt_run rt_init [UserClick Start, Fire 1, UserClick Lap, UserClick Lap]"
  have r: "rt_reach ?r" by (rule rt_reach_run [OF rt_reach.init])
  have n: "length (laps (cstate ?r)) = 2" by code_simp
  have e: "map (parse_nat \<circ> fst) (rows (shown ?r)) = map (\<lambda>i. Some (2 - i)) [0..<2]"
    using rt_screen_labels_read_back [OF r] unfolding n .
  have "map (\<lambda>i. Some (2 - i)) [0..<2] = [Some 2, Some (1::nat)]"
    by (simp add: upt_rec)
  from r e [unfolded this] show ?thesis by (rule conjI)
qed

end
