(* ===== verification/Spec2Isabelle.thy ===== *)
theory Spec2Isabelle
  imports Refinement
begin

text \<open>
  \<^bold>\<open>Stopwatch widget, src/src/Watch.tsx.\<close>
  The repository is one React function component, \<open>Stopwatch\<close>, with four
  \<open>useState\<close> hooks (\<open>time\<close>, \<open>running\<close>, \<open>intervalId\<close>, \<open>laps\<close>),
  five click handlers, one \<open>useEffect\<close> that starts and clears a 10 ms browser
  interval whenever \<open>running\<close> changes, a render function that shows the elapsed
  time and the lap list, and the pure helper \<open>formatTime\<close>. The parts interact
  through the component state: handlers and the interval callback update it, each
  update re-renders, and a change of \<open>running\<close> re-runs the effect, whose cleanup
  closure is kept by React until the next run or the unmount.

  \<^bold>\<open>Theories.\<close>
  \<^item> \<open>Prelude\<close>: type names (\<open>ms = int\<close> for integral JS numbers,
    \<open>interval_id = nat\<close>), the rule collections \<open>js_eval\<close> and \<open>sw_defs\<close>,
    list facts on iterated reversal, and \<open>truthy_id\<close> (\<open>if (intervalId)\<close>).
  \<^item> \<open>JsPrim\<close>: the ECMAScript built-ins the source calls: integer
    \<open>toString\<close> (\<open>digits\<close>, \<open>js_toString\<close>), \<open>padStart\<close>,
    \<open>substring\<close>, \<open>%\<close> (truncating: \<open>js_imod\<close> on integers, \<open>js_fmod\<close>
    on rationals), \<open>Math.floor\<close> of a quotient; bridging lemmas from the
    rational expressions to Isabelle's \<open>div\<close>/\<open>mod\<close>, and a decimal reader
    \<open>parse_nat\<close> with \<open>parse_nat (zeros @ digits n) = Some n\<close>.
  \<^item> \<open>FormatTime\<close>: \<open>formatTime\<close> (lines 113--129) expression by
    expression; an integer reference formatter \<open>format_ref\<close> and a reader
    \<open>parse_time\<close>. Lemmas: agreement with the reference on non-negative input
    (C5), round trip up to the truncated milliseconds (C6), 11 characters below
    100 h and a field that widens beyond (C12, C24), injectivity on tick multiples
    (C17), and that no negative time, such as a negative lap difference, reads
    back as a time (C26).
  \<^item> \<open>Stopwatch\<close>: records \<open>lap\<close> (lines 3--6) and \<open>stopwatch\<close> (the hooks,
    lines 9--12), \<open>handleStart\<close> \<dots> \<open>handleLap\<close> (lines 29--55), \<open>tick\<close>
    (the interval callback, line 17), the buttons' \<open>disabled\<close> flags and
    \<open>onClick\<close> wiring (\<open>disabled\<close>, \<open>handler\<close>, \<open>click\<close>, lines 62--92),
    with the frame of each handler field by field (\<open>handler_fields\<close>).
    The contract of the specification (section 4.1) is the machine
    \<open>sw_step\<close>/\<open>sw_run\<close>: a click, or a tick while running. Lemmas: the time
    invariant (C4), ticks (C8), laps appear only through Lap while running (C9), and
    the post-states of Reset, Stop and Start (C13--C15). The contract machine runs
    the code's handlers without React's renders; what the component does to the laps
    is stated on the runtime (C10, C11, C19, C28).
  \<^item> \<open>View\<close>: \<open>render\<close> (lines 57--110) returns the view (display, buttons,
    rows built by \<open>lap_row\<close>) and the state, in which \<open>laps.reverse()\<close> has
    reversed the stored array in place. Lemmas: the rules for the display, the
    rows and the state after one render, used by the runtime theories.
  \<^item> \<open>Runtime\<close>: record \<open>runtime\<close> of the component state \<open>cstate\<close>, the set
    of active browser timers, the next handle, the dependency value and cleanup
    handle of the last effect run, whether the component is mounted, and
    \<open>shown\<close>, the view of the last render, which is what the screen shows.
    \<open>run_effect\<close>, \<open>commit\<close> and \<open>rt_init\<close> model lines 14--27 with React's
    commit order (render, then the previous cleanup, then the effect if
    \<open>running\<close> changed; \<open>setIntervalId\<close> renders once more); \<open>effect_loop\<close>
    is React's general loop of effect runs, with fuel; \<open>rt_step\<close> handles a user
    click, a timer firing and the unmount; \<open>rt_reach\<close> is the set of reachable
    states. Lemmas: the invariant \<open>rt_inv\<close> by rule induction, at most one timer
    and none while stopped (C1, C7, C16), the timer leak at unmount (C3), the
    lap array reversed on every tick (C11), termination of the commit loop
    within two rounds (C25), and that the screen lists the stored lap array in its
    stored order (\<open>rt_reach_shown_rows\<close>).
  \<^item> \<open>Refinement\<close>: the abstraction \<open>proj\<close> (time, running flag, lap count)
    and \<open>abs_ev\<close>/\<open>abs_run\<close> from runtime events to contract events; the
    forward simulation on \<open>proj\<close> (C2) and the stronger simulation \<open>sim\<close>, in
    which the stored laps are the contract's laps or their reverse while at most two
    laps exist (C19), the time and row count on screen (C20), and the reason
    the lap lists diverge beyond two laps: a Lap click subtracts the lap in the
    bottom row of the screen, the newest or the oldest by the parity of the ticks
    (C10). Also: well-formedness of every
    reachable state (C21), progress of a running timer (C22), that a stopped,
    reset state is at most two clicks away from every reachable state (C23), the
    rows on screen equal to the contract's rows in one of the two orders (C27),
    that every tick reverses the lap contents under fixed labels (C28), the
    buttons on screen agreeing with the browser timer (C29), that only Stop and Reset move the elapsed time back (C30), and that
    the labels on screen read back as n, ..., 1 in every reachable state (C31).
  \<^item> This theory: the end-to-end property from mount to the screen (C18).

  \<^bold>\<open>Modelling choices.\<close> Handlers read the state of the last render, and every
  event is followed by its render before the next one (React flushes discrete
  events and each interval task separately); one render per state change. JS
  numbers that hold integers are \<open>int\<close>; the quotients in \<open>formatTime\<close> are
  exact rationals, which agree with the doubles for every time below \<open>2^53\<close> ms
  that the divisors 1000, 60000 and 3600000 can produce a floor of. Browser handles
  start at 1 and increase. No fuel is needed: every function is structurally
  recursive or a finite fold over an event list, except React's effect loop,
  which takes fuel; two rounds are enough (C25) because the effect never sets
  \<open>running\<close>. Every enabled handler sets some state to a new value (at least a
  new array), so React's bail-out on unchanged state never skips a render here.

  \<^bold>\<open>Order of the development.\<close> The handlers and the contract machine,
  \<open>formatTime\<close>, the render, the effect and lifecycle, then the refinement
  (projection, laps up to reversal, displayed time), then the view on screen
  (\<open>shown\<close>) related to the contract's rows and labels. Every statement of
  \<open>Watch.tsx\<close> that computes or changes state is a definition of the
  development; what remains below is outside the repository or presentation.

  \<^bold>\<open>Not modelled.\<close> CSS classes and layout (presentation only), the module
  export, React's scheduling beyond the commit order above (concurrent rendering,
  and StrictMode double renders: the host page that would mount the component in
  \<open>StrictMode\<close> is not part of the repository, and a double render would only
  reverse the lap array once more, the same effect on the array as one more
  tick), and timer drift: a firing is an event the environment may send at any
  time while the timer is active. JavaScript doubles
  are idealised as exact rationals in \<open>formatTime\<close> (see above), which is why
  the built-ins component is only partly modelled.
\<close>

section \<open>End to end\<close>

text \<open>
  C18. From mounting, a click on Start followed by n firings of the timer it
  started shows a time that reads back as exactly 10 n milliseconds.
\<close>

theorem display_after_ticks:
  "parse_time (display (shown (rt_run rt_init (UserClick Start # replicate n (Fire 1)))))
   = Some (10 * int n)"
proof -
  let ?r = "rt_step rt_init (UserClick Start)"
  have m: "mounted ?r" and t: "1 \<in> timers ?r" and z: "time (cstate ?r) = 0"
    by code_simp+
  have "time (cstate (rt_run ?r (replicate n (Fire 1)))) = 10 * int n"
    using rt_fire_run [OF rt_reach_start m t, of n] z by simp
  moreover have "(10 * int n) mod 10 = 0" by simp
  moreover have "rt_reach (rt_run rt_init (UserClick Start # replicate n (Fire 1)))"
    by (rule rt_reach_run [OF rt_reach.init])
  ultimately show ?thesis
    by (simp add: rt_reach_shown render_display parse_time_formatTime_nonneg)
qed

end
